theory Spec2Isabelle
  imports Main "HOL-Library.AList"
begin

section \<open>Data model of the call core\<close>

text \<open>
  The call core lives in the \<^verbatim>\<open>AppProvider\<close> component: React state variables, mutable
  refs and handler closures.  Every handler (a user action or a received signaling
  envelope) is modelled as one transition of an explicit state record.  A handler reads
  the state variables of the render it was created in and the refs mirror that state, so
  a transition reads the state it starts from; everything the handler obtains from the
  browser, the transport or the database during its run (capture results, negotiation
  results, insert results, clock reads) comes from an environment record \<open>env\<close>.
  Effects on external collaborators (envelopes handed to the channel, rows handed to the
  database, console lines, capture requests, stopped tracks) are logged in the state.
\<close>

type_synonym user_id = string

datatype track_kind = AudioKind | VideoKind

text \<open>A \<^verbatim>\<open>MediaStreamTrack\<close>: \<open>displaySurface\<close> says whether
  \<^verbatim>\<open>getSettings().displaySurface\<close> is truthy, \<open>contentHint\<close> is \<open>None\<close> when the
  platform's track has no such property.\<close>

record track =
  trackId :: nat
  trackKind :: track_kind
  trackLabel :: string
  displaySurface :: bool
  trackEnabled :: bool
  contentHint :: "string option"

type_synonym sdp = "string \<times> string"

type_synonym candidate = string

record payload =
  sdpOf :: "sdp option"
  candidateOf :: "candidate option"

datatype signal_type = USER_ONLINE | OFFER | ANSWER | CANDIDATE | HANGUP

record signal_data =
  sigType :: signal_type
  senderId :: user_id
  recipientId :: "user_id option"
  sigPayload :: payload

record incoming_call =
  callerId :: user_id
  timestamp :: nat
  offer :: "sdp option"

text \<open>The state of one \<^verbatim>\<open>RTCPeerConnection\<close> is the list of the operations applied to
  it with success, oldest first.\<close>

datatype pc_op =
    AddTrack nat
  | SetLocalDescription sdp
  | SetRemoteDescription sdp
  | AddIceCandidate candidate
  | ReplaceTrack "nat option"
  | DirectionSendRecv

text \<open>Row identifiers are \<^verbatim>\<open>'n-' + Date.now() + Math.random()\<close>: the prefix, the clock
  read and the random draw.\<close>

datatype row_id = RowId string nat nat

datatype notification_type = MISSED_CALL

record notification_row =
  n_id :: row_id
  n_recipient_id :: user_id
  n_sender_id :: user_id
  n_type :: notification_type
  n_title :: string
  n_message :: string
  n_timestamp :: nat
  n_read :: bool
  n_link_to :: user_id

record message_row =
  m_id :: row_id
  m_sender_id :: user_id
  m_recipient_id :: user_id
  m_text :: string
  m_timestamp :: nat
  m_type :: string
  m_attachments :: "string list"

datatype db_insert = InsertNotification notification_row | InsertMessage message_row

text \<open>A capture request: \<^verbatim>\<open>getUserMedia({video, audio})\<close> or \<^verbatim>\<open>getDisplayMedia\<close>.\<close>

datatype capture_request = GetUserMedia bool bool | GetDisplayMedia

record app_state =
  currentUser :: "user_id option"
  users :: "(user_id \<times> string) list"
  incomingCall :: "incoming_call option"
  isInCall :: bool
  activeCallData :: "user_id list option"
  localStream :: "track list option"
  remoteStreams :: "(user_id \<times> track list) list"
  isScreenSharing :: bool
  isMicOn :: bool
  isCameraOn :: bool
  peerConnections :: "(user_id \<times> pc_op list) list"
  signalingChannel :: bool
  isSignalingConnected :: bool
  outbox :: "signal_data list"
  dbInserts :: "db_insert list"
  console :: "string list"
  alerts :: "string list"
  stoppedTracks :: "nat list"
  captureRequests :: "capture_request list"

text \<open>What the collaborators answer during one run of a handler.  \<open>None\<close> for a capture
  or an offer means the promise was rejected; the \<open>Ok\<close> predicates say whether the call on
  the connection of that peer succeeds; \<open>dateNow k\<close> and \<open>mathRandom k\<close> are the \<open>k\<close>-th
  clock read and random draw of the run.\<close>

record env =
  dateNow :: "nat \<Rightarrow> nat"
  mathRandom :: "nat \<Rightarrow> nat"
  getUserMedia :: "track list option"
  getDisplayMedia :: "track list option"
  pcCreateOffer :: "user_id \<Rightarrow> sdp option"
  pcCreateAnswer :: "user_id \<Rightarrow> sdp option"
  pcSetLocalOk :: "user_id \<Rightarrow> bool"
  pcSetRemoteOk :: "user_id \<Rightarrow> bool"
  pcAddIceOk :: "user_id \<Rightarrow> bool"
  pcAttachOk :: "user_id \<Rightarrow> bool"
  pcHasVideoTransceiver :: "user_id \<Rightarrow> bool"
  channelSendOk :: "signal_data \<Rightarrow> bool"
  notifInsertError :: bool
  msgInsertError :: bool

datatype error = UnhandledRejection

type_synonym result = "(error \<times> app_state) + app_state"

datatype phase = Idle | IncomingPending | Active

text \<open>The spec's phase, read off the two state variables that carry it.\<close>

definition phase_of :: "app_state \<Rightarrow> phase" where
  "phase_of s = (if isInCall s then Active
                 else if incomingCall s \<noteq> None then IncomingPending else Idle)"

definition activeParticipants :: "app_state \<Rightarrow> user_id list" where
  "activeParticipants s = (case activeCallData s of None \<Rightarrow> [] | Some ps \<Rightarrow> ps)"

definition initialState :: "user_id option \<Rightarrow> (user_id \<times> string) list \<Rightarrow> app_state" where
  "initialState u us =
     \<lparr> currentUser = u, users = us, incomingCall = None, isInCall = False,
       activeCallData = None, localStream = None, remoteStreams = [],
       isScreenSharing = False, isMicOn = False, isCameraOn = False,
       peerConnections = [], signalingChannel = (u \<noteq> None), isSignalingConnected = False,
       outbox = [], dbInserts = [], console = [], alerts = [], stoppedTracks = [],
       captureRequests = [] \<rparr>"

section \<open>Signaling transport and peer connection registry\<close>

definition logConsole :: "string \<Rightarrow> app_state \<Rightarrow> app_state" where
  "logConsole msg s = s\<lparr>console := console s @ [msg]\<rparr>"

text \<open>\<^verbatim>\<open>sendSignal\<close>: nothing without a channel or a user, a silent drop while the channel
  is not subscribed, otherwise the envelope is handed to \<^verbatim>\<open>channel.send\<close>; a send that
  throws is caught and warned about.\<close>

definition sendSignal ::
  "env \<Rightarrow> signal_type \<Rightarrow> user_id option \<Rightarrow> payload \<Rightarrow> app_state \<Rightarrow> app_state" where
  "sendSignal e ty rcpt pl s =
     (case currentUser s of
        None \<Rightarrow> s
      | Some me \<Rightarrow>
          if \<not> signalingChannel s then s
          else if \<not> isSignalingConnected s then s
          else
            (let sg = \<lparr> sigType = ty, senderId = me, recipientId = rcpt, sigPayload = pl \<rparr>;
                 s1 = s\<lparr>outbox := outbox s @ [sg]\<rparr>
             in if channelSendOk e sg then s1 else logConsole ''Error sending signal:'' s1))"

definition emptyPayload :: payload where
  "emptyPayload = \<lparr> sdpOf = None, candidateOf = None \<rparr>"

definition sdpPayload :: "sdp \<Rightarrow> payload" where
  "sdpPayload d = \<lparr> sdpOf = Some d, candidateOf = None \<rparr>"

text \<open>The registry is a JavaScript \<^verbatim>\<open>Map\<close>: insertion ordered, \<^verbatim>\<open>set\<close> on a present key
  replaces the value in place.\<close>

definition createPeerConnection :: "user_id \<Rightarrow> app_state \<Rightarrow> app_state" where
  "createPeerConnection rid s =
     s\<lparr>peerConnections := AList.update rid [] (peerConnections s)\<rparr>"

definition pcApply :: "user_id \<Rightarrow> pc_op \<Rightarrow> app_state \<Rightarrow> app_state" where
  "pcApply rid opn s =
     s\<lparr>peerConnections :=
          map (\<lambda>(k, ops). if k = rid then (k, ops @ [opn]) else (k, ops)) (peerConnections s)\<rparr>"

definition addTracksToPc :: "user_id \<Rightarrow> track list \<Rightarrow> app_state \<Rightarrow> app_state" where
  "addTracksToPc rid ts s = fold (\<lambda>t. pcApply rid (AddTrack (trackId t))) ts s"

text \<open>The callbacks wired by \<^verbatim>\<open>createPeerConnection\<close>.\<close>

definition onIceCandidate :: "env \<Rightarrow> user_id \<Rightarrow> candidate option \<Rightarrow> app_state \<Rightarrow> app_state" where
  "onIceCandidate e rid c s =
     (case c of
        None \<Rightarrow> s
      | Some cand \<Rightarrow> sendSignal e CANDIDATE (Some rid) \<lparr> sdpOf = None, candidateOf = Some cand \<rparr> s)"

definition onTrack :: "user_id \<Rightarrow> track \<Rightarrow> track list option \<Rightarrow> app_state \<Rightarrow> app_state" where
  "onTrack rid t streams0 s =
     (case map_of (remoteStreams s) rid of
        Some existing \<Rightarrow>
          s\<lparr>remoteStreams :=
               AList.update rid
                 (if trackId t \<in> set (map trackId existing) then existing else existing @ [t])
                 (remoteStreams s)\<rparr>
      | None \<Rightarrow>
          s\<lparr>remoteStreams :=
               AList.update rid (case streams0 of Some ts \<Rightarrow> ts | None \<Rightarrow> [t])
                 (remoteStreams s)\<rparr>)"

text \<open>The three lines every outbound negotiation shares: create the offer, set it as the
  local description, send it.  \<open>None\<close> when one of the two awaited calls throws.\<close>

definition negotiateOffer :: "env \<Rightarrow> user_id \<Rightarrow> app_state \<Rightarrow> app_state option" where
  "negotiateOffer e rid s =
     (case pcCreateOffer e rid of
        None \<Rightarrow> None
      | Some off \<Rightarrow>
          if pcSetLocalOk e rid
          then Some (sendSignal e OFFER (Some rid) (sdpPayload off)
                       (pcApply rid (SetLocalDescription off) s))
          else None)"

definition renegotiatePeer :: "env \<Rightarrow> user_id \<Rightarrow> app_state \<Rightarrow> app_state" where
  "renegotiatePeer e rid s =
     (case negotiateOffer e rid s of
        Some s' \<Rightarrow> s'
      | None \<Rightarrow> logConsole ''Renegotiation failed'' s)"

text \<open>\<^verbatim>\<open>renegotiate\<close> tests the \<^verbatim>\<open>localStream\<close> of its closure, passed as \<open>closure\<close>.\<close>

definition renegotiate :: "env \<Rightarrow> track list option \<Rightarrow> app_state \<Rightarrow> app_state" where
  "renegotiate e closure s =
     (if closure = None then s
      else fold (renegotiatePeer e) (map fst (peerConnections s)) s)"

section \<open>Media track controller\<close>

fun startsWith :: "string \<Rightarrow> string \<Rightarrow> bool" where
  "startsWith cs [] = True"
| "startsWith [] (p # ps) = False"
| "startsWith (c # cs) (p # ps) = (c = p \<and> startsWith cs ps)"

text \<open>\<^verbatim>\<open>String.prototype.includes\<close>.\<close>

fun strIncludes :: "string \<Rightarrow> string \<Rightarrow> bool" where
  "strIncludes [] pat = (pat = [])"
| "strIncludes (c # cs) pat = (startsWith (c # cs) pat \<or> strIncludes cs pat)"

text \<open>The test by which the code tells a screen-share track from a camera track:
  \<^verbatim>\<open>track.label.includes('screen') || track.getSettings().displaySurface\<close>.\<close>

definition isScreenTrack :: "track \<Rightarrow> bool" where
  "isScreenTrack t = (strIncludes (trackLabel t) ''screen'' \<or> displaySurface t)"

definition getVideoTracks :: "track list \<Rightarrow> track list" where
  "getVideoTracks ts = filter (\<lambda>t. trackKind t = VideoKind) ts"

definition getAudioTracks :: "track list \<Rightarrow> track list" where
  "getAudioTracks ts = filter (\<lambda>t. trackKind t = AudioKind) ts"

text \<open>\<^verbatim>\<open>MediaStream.addTrack\<close> does nothing when the track is already in the stream.\<close>

definition addTrack :: "track \<Rightarrow> track list \<Rightarrow> track list" where
  "addTrack t ts = (if trackId t \<in> set (map trackId ts) then ts else ts @ [t])"

text \<open>\<^verbatim>\<open>stream.getAudioTracks().forEach(t => t.enabled = b)\<close>.\<close>

definition setAudioEnabled :: "bool \<Rightarrow> track list \<Rightarrow> track list" where
  "setAudioEnabled b ts =
     map (\<lambda>t. if trackKind t = AudioKind then t\<lparr>trackEnabled := b\<rparr> else t) ts"

text \<open>\<^verbatim>\<open>sender.replaceTrack(null)\<close> on the video transceiver of one peer, not awaited: a
  rejection changes nothing.\<close>

definition detachVideo :: "env \<Rightarrow> user_id \<Rightarrow> app_state \<Rightarrow> app_state" where
  "detachVideo e rid s =
     (if pcHasVideoTransceiver e rid \<and> pcAttachOk e rid
      then pcApply rid (ReplaceTrack None) s else s)"

text \<open>One round of the loop that gives a new video track to a peer: replace the track of
  the video transceiver when there is one, add the track otherwise.\<close>

definition attachVideo :: "env \<Rightarrow> track \<Rightarrow> user_id \<Rightarrow> app_state \<Rightarrow> app_state" where
  "attachVideo e v rid s =
     (if pcHasVideoTransceiver e rid
      then pcApply rid DirectionSendRecv (pcApply rid (ReplaceTrack (Some (trackId v))) s)
      else pcApply rid (AddTrack (trackId v)) s)"

text \<open>The loop over the registry; the first call that throws leaves the loop (and the
  \<^verbatim>\<open>try\<close> block around it): \<open>False\<close> with the state reached so far.\<close>

fun attachAll :: "env \<Rightarrow> track \<Rightarrow> user_id list \<Rightarrow> app_state \<Rightarrow> bool \<times> app_state" where
  "attachAll e v [] s = (True, s)"
| "attachAll e v (r # rs) s =
     (if pcAttachOk e r then attachAll e v rs (attachVideo e v r s) else (False, s))"

definition toggleMic :: "env \<Rightarrow> app_state \<Rightarrow> app_state" where
  "toggleMic e s =
     (case localStream s of
        None \<Rightarrow> s
      | Some tracks \<Rightarrow>
          if getAudioTracks tracks \<noteq> [] then
            (let newStatus = \<not> isMicOn s;
                 s1 = s\<lparr>localStream := Some (setAudioEnabled newStatus tracks),
                        isMicOn := newStatus\<rparr>
             in if newStatus then renegotiate e (localStream s) s1 else s1)
          else logConsole ''No audio tracks found to toggle.'' s)"

text \<open>\<^verbatim>\<open>stopScreenSharing\<close>.  The tracks are removed from the stream object of the closure and
  \<^verbatim>\<open>setLocalStream\<close> stores a copy of it.\<close>

definition stopScreenSharing :: "env \<Rightarrow> app_state \<Rightarrow> app_state" where
  "stopScreenSharing e s =
     (case localStream s of
        None \<Rightarrow> s
      | Some tracks \<Rightarrow>
          if peerConnections s = [] then s
          else
            (let screens = filter isScreenTrack (getVideoTracks tracks);
                 kept = filter (\<lambda>t. \<not> (trackKind t = VideoKind \<and> isScreenTrack t)) tracks;
                 s1 = s\<lparr>stoppedTracks := stoppedTracks s @ map trackId screens,
                        localStream := Some kept,
                        isScreenSharing := False, isCameraOn := False\<rparr>;
                 s2 = fold (detachVideo e) (map fst (peerConnections s1)) s1
             in renegotiate e (localStream s) s2))"

text \<open>\<^verbatim>\<open>toggleCamera\<close>.  When \<^verbatim>\<open>stopScreenSharing\<close> has run, the state holds a copy of the
  stream object (\<open>detached\<close>), so the track added to the object afterwards reaches the
  state only with the \<^verbatim>\<open>setLocalStream\<close> after the loop over the peers.\<close>

definition toggleCamera :: "env \<Rightarrow> app_state \<Rightarrow> app_state" where
  "toggleCamera e s =
     (case localStream s of
        None \<Rightarrow> s
      | Some tracks \<Rightarrow>
          if isCameraOn s then
            (let cams = filter (\<lambda>t. \<not> isScreenTrack t) (getVideoTracks tracks);
                 kept = filter (\<lambda>t. \<not> (trackKind t = VideoKind \<and> \<not> isScreenTrack t)) tracks;
                 s1 = s\<lparr>stoppedTracks := stoppedTracks s @ map trackId cams,
                        localStream := Some kept, isCameraOn := False\<rparr>
             in fold (detachVideo e) (map fst (peerConnections s1)) s1)
          else
            (let s1 = s\<lparr>captureRequests := captureRequests s @ [GetUserMedia True False]\<rparr>
             in case getUserMedia e of
                  None \<Rightarrow> logConsole ''Failed to access camera'' s1
                | Some ms \<Rightarrow>
                    (let s2 = (if isScreenSharing s then stopScreenSharing e s1 else s1);
                         detached = (isScreenSharing s \<and> peerConnections s \<noteq> [])
                     in case (getVideoTracks ms, localStream s2) of
                          (v # _, Some cur) \<Rightarrow>
                            (let obj = addTrack v cur;
                                 s3 = (if detached then s2 else s2\<lparr>localStream := Some obj\<rparr>)
                                        \<lparr>isCameraOn := True\<rparr>
                             in case attachAll e v (map fst (peerConnections s3)) s3 of
                                  (True, s4) \<Rightarrow>
                                    renegotiate e (localStream s) (s4\<lparr>localStream := Some obj\<rparr>)
                                | (False, s4) \<Rightarrow> logConsole ''Failed to access camera'' s4)
                        | _ \<Rightarrow> logConsole ''Failed to access camera'' s2)))"

definition toggleScreenShare :: "env \<Rightarrow> app_state \<Rightarrow> app_state" where
  "toggleScreenShare e s =
     (case localStream s of
        None \<Rightarrow> s
      | Some tracks \<Rightarrow>
          if peerConnections s = [] then s
          else if isScreenSharing s then stopScreenSharing e s
          else
            (let s1 = s\<lparr>captureRequests := captureRequests s @ [GetDisplayMedia]\<rparr>
             in case getDisplayMedia e of
                  None \<Rightarrow> logConsole ''Error starting screen share:'' s1
                | Some ms \<Rightarrow>
                    (case getVideoTracks ms of
                       [] \<Rightarrow> logConsole ''Error starting screen share:'' s1
                     | v0 # _ \<Rightarrow>
                         (let screenTrack =
                                (case contentHint v0 of
                                   None \<Rightarrow> v0
                                 | Some h \<Rightarrow> v0\<lparr>contentHint := Some ''detail''\<rparr>);
                              s2 = (if isCameraOn s
                                    then s1\<lparr>stoppedTracks :=
                                              stoppedTracks s1 @ map trackId (getVideoTracks tracks),
                                            localStream :=
                                              Some (filter (\<lambda>t. trackKind t \<noteq> VideoKind) tracks),
                                            isCameraOn := False\<rparr>
                                    else s1);
                              obj = addTrack screenTrack
                                      (if isCameraOn s
                                       then filter (\<lambda>t. trackKind t \<noteq> VideoKind) tracks
                                       else tracks);
                              s3 = s2\<lparr>localStream := Some obj\<rparr>
                          in case attachAll e screenTrack (map fst (peerConnections s3)) s3 of
                               (True, s4) \<Rightarrow>
                                 renegotiate e (localStream s)
                                   (s4\<lparr>isScreenSharing := True, localStream := Some obj\<rparr>)
                             | (False, s4) \<Rightarrow> logConsole ''Error starting screen share:'' s4))))"

section \<open>Call state machine\<close>

text \<open>The body of the loop of \<^verbatim>\<open>startGroupCall\<close> for one recipient.\<close>

definition callRecipient :: "env \<Rightarrow> track list \<Rightarrow> user_id \<Rightarrow> app_state \<Rightarrow> app_state" where
  "callRecipient e stream rid s =
     (let s1 = addTracksToPc rid stream (createPeerConnection rid s)
      in case negotiateOffer e rid s1 of
           Some s2 \<Rightarrow> s2
         | None \<Rightarrow> logConsole (''Failed to call '' @ rid) s1)"

definition startGroupCall :: "env \<Rightarrow> user_id list \<Rightarrow> app_state \<Rightarrow> app_state" where
  "startGroupCall e recipientIds s =
     (if currentUser s = None \<or> recipientIds = [] then s
      else
        (case localStream s of
           Some stream \<Rightarrow>
             fold (callRecipient e stream) recipientIds
               (s\<lparr>isInCall := True, activeCallData := Some recipientIds\<rparr>)
         | None \<Rightarrow>
             (let s1 = s\<lparr>captureRequests := captureRequests s @ [GetUserMedia False True]\<rparr>
              in case getUserMedia e of
                   None \<Rightarrow>
                     (logConsole ''Error getting user media'' s1)
                       \<lparr>alerts := alerts s1 @ [''Could not access microphone. Call cannot start.'']\<rparr>
                 | Some ms \<Rightarrow>
                     (let stream = setAudioEnabled False ms
                      in fold (callRecipient e stream) recipientIds
                           (s1\<lparr>isMicOn := False, isCameraOn := False,
                               localStream := Some stream,
                               isInCall := True, activeCallData := Some recipientIds\<rparr>)))))"

definition startCall :: "env \<Rightarrow> user_id \<Rightarrow> app_state \<Rightarrow> app_state" where
  "startCall e rid s = startGroupCall e [rid] s"

text \<open>\<^verbatim>\<open>initiateCallConnection\<close> catches everything and returns nothing: its caller cannot
  tell a failure from a success.\<close>

definition initiateCallConnection :: "env \<Rightarrow> user_id \<Rightarrow> app_state \<Rightarrow> app_state" where
  "initiateCallConnection e rid s =
     (let connect = (\<lambda>stream s0.
            (let s1 = addTracksToPc rid stream (createPeerConnection rid s0)
             in case negotiateOffer e rid s1 of
                  Some s2 \<Rightarrow> s2
                | None \<Rightarrow> logConsole ''Error initiating connection:'' s1))
      in case localStream s of
           Some stream \<Rightarrow> connect stream s
         | None \<Rightarrow>
             (let s1 = s\<lparr>captureRequests := captureRequests s @ [GetUserMedia False True]\<rparr>
              in case getUserMedia e of
                   None \<Rightarrow> logConsole ''No audio device found'' s1
                 | Some ms \<Rightarrow>
                     (let stream = setAudioEnabled False ms
                      in connect stream (s1\<lparr>localStream := Some stream, isMicOn := False\<rparr>))))"

definition addToCall :: "env \<Rightarrow> user_id \<Rightarrow> app_state \<Rightarrow> app_state" where
  "addToCall e rid s =
     (if currentUser s = None \<or> \<not> isInCall s \<or> activeCallData s = None then s
      else
        (let s1 = initiateCallConnection e rid s
         in s1\<lparr>activeCallData :=
                 (case activeCallData s1 of
                    Some ps \<Rightarrow> Some (ps @ [rid])
                  | None \<Rightarrow> None)\<rparr>))"

definition acceptIncomingCall :: "env \<Rightarrow> app_state \<Rightarrow> app_state" where
  "acceptIncomingCall e s =
     (case (incomingCall s, currentUser s) of
        (Some ic, Some me) \<Rightarrow>
          (let s0 = s\<lparr>captureRequests := captureRequests s @ [GetUserMedia False True]\<rparr>
           in case getUserMedia e of
                None \<Rightarrow> logConsole ''Could not access microphone'' s0
              | Some ms \<Rightarrow>
                  (let stream = setAudioEnabled False ms;
                       s1 = s0\<lparr>isMicOn := False, isCameraOn := False, localStream := Some stream\<rparr>;
                       s2 = addTracksToPc (callerId ic) stream (createPeerConnection (callerId ic) s1);
                       enter = (\<lambda>s'. s'\<lparr>isInCall := True, activeCallData := Some [callerId ic],
                                        incomingCall := None\<rparr>)
                   in case offer ic of
                        None \<Rightarrow> enter s2
                      | Some off \<Rightarrow>
                          if \<not> pcSetRemoteOk e (callerId ic)
                          then logConsole ''Error accepting call:'' s2
                          else
                            (let s3 = pcApply (callerId ic) (SetRemoteDescription off) s2
                             in case pcCreateAnswer e (callerId ic) of
                                  None \<Rightarrow> logConsole ''Error accepting call:'' s3
                                | Some ans \<Rightarrow>
                                    if \<not> pcSetLocalOk e (callerId ic)
                                    then logConsole ''Error accepting call:'' s3
                                    else enter (sendSignal e ANSWER (Some (callerId ic)) (sdpPayload ans)
                                                  (pcApply (callerId ic) (SetLocalDescription ans) s3)))))
      | _ \<Rightarrow> s)"

definition rejectIncomingCall :: "env \<Rightarrow> app_state \<Rightarrow> app_state" where
  "rejectIncomingCall e s =
     (case (incomingCall s, currentUser s) of
        (Some ic, Some me) \<Rightarrow>
          (sendSignal e HANGUP (Some (callerId ic)) emptyPayload s)\<lparr>incomingCall := None\<rparr>
      | _ \<Rightarrow> s)"

text \<open>\<^verbatim>\<open>cleanupCall\<close> stops the tracks of the stream the ref holds and clears the call.
  A closed connection leaves the registry, which is all the model keeps of it.\<close>

definition cleanupCall :: "app_state \<Rightarrow> app_state" where
  "cleanupCall s =
     s\<lparr>stoppedTracks :=
         stoppedTracks s @ (case localStream s of None \<Rightarrow> [] | Some ts \<Rightarrow> map trackId ts),
       peerConnections := [], localStream := None, remoteStreams := [],
       isInCall := False, activeCallData := None,
       isScreenSharing := False, isMicOn := False, isCameraOn := False\<rparr>"

definition endCall :: "env \<Rightarrow> app_state \<Rightarrow> app_state" where
  "endCall e s =
     cleanupCall
       (case (activeCallData s, currentUser s) of
          (Some ps, Some me) \<Rightarrow> fold (\<lambda>pid. sendSignal e HANGUP (Some pid) emptyPayload) ps s
        | _ \<Rightarrow> s)"

definition handleRemoteHangup :: "user_id \<Rightarrow> app_state \<Rightarrow> app_state" where
  "handleRemoteHangup sender s =
     (let s1 = s\<lparr>peerConnections := AList.delete sender (peerConnections s),
                remoteStreams := AList.delete sender (remoteStreams s)\<rparr>
      in case activeCallData s1 of
           None \<Rightarrow> s1
         | Some ps \<Rightarrow>
             (let newIds = filter (\<lambda>i. i \<noteq> sender) ps
              in if newIds = [] then cleanupCall s1
                 else s1\<lparr>activeCallData := Some newIds\<rparr>))"

text \<open>The missed-call branch of the \<^verbatim>\<open>HANGUP\<close> case.  An insert of the database client
  resolves to an object with an \<^verbatim>\<open>error\<close> field and does not throw; \<open>dbInserts\<close> logs the rows
  handed to it.\<close>

definition missedCallNotification ::
  "env \<Rightarrow> user_id \<Rightarrow> user_id \<Rightarrow> app_state \<Rightarrow> notification_row" where
  "missedCallNotification e me sender s =
     (let callerName = (case map_of (users s) sender of Some n \<Rightarrow> n | None \<Rightarrow> ''Unknown User'')
      in \<lparr> n_id = RowId ''n-'' (dateNow e 0) (mathRandom e 0),
           n_recipient_id = me, n_sender_id = sender, n_type = MISSED_CALL,
           n_title = ''Missed Call'',
           n_message = ''You missed a call from '' @ callerName,
           n_timestamp = dateNow e 1, n_read = False, n_link_to = sender \<rparr>)"

definition missedCallMessage :: "env \<Rightarrow> user_id \<Rightarrow> user_id \<Rightarrow> message_row" where
  "missedCallMessage e me sender =
     \<lparr> m_id = RowId ''m-'' (dateNow e 2) (mathRandom e 1),
       m_sender_id = sender, m_recipient_id = me, m_text = ''Missed Call'',
       m_timestamp = dateNow e 3, m_type = ''missed_call'', m_attachments = [] \<rparr>"

definition missedCall :: "env \<Rightarrow> user_id \<Rightarrow> user_id \<Rightarrow> app_state \<Rightarrow> app_state" where
  "missedCall e me sender s =
     (let s1 = s\<lparr>dbInserts :=
                   dbInserts s @ [InsertNotification (missedCallNotification e me sender s)]\<rparr>;
          s2 = (if notifInsertError e
                then logConsole ''Error creating missed call notification:'' s1 else s1);
          s3 = s2\<lparr>dbInserts := dbInserts s2 @ [InsertMessage (missedCallMessage e me sender)]\<rparr>;
          s4 = (if msgInsertError e
                then logConsole ''Error creating missed call message:'' s3 else s3)
      in s4\<lparr>incomingCall := None\<rparr>)"

text \<open>The handler of the signaling channel.  It is subscribed only while a user is logged
  in.  It has no \<^verbatim>\<open>try\<close> of its own: a rejected \<^verbatim>\<open>await\<close> leaves it as an unhandled
  rejection, \<open>Inl\<close> with the state reached.\<close>

definition onSignal :: "env \<Rightarrow> signal_data \<Rightarrow> app_state \<Rightarrow> result" where
  "onSignal e sg s =
     (case currentUser s of
        None \<Rightarrow> Inr s
      | Some me \<Rightarrow>
          if (case recipientId sg of None \<Rightarrow> False | Some r \<Rightarrow> r \<noteq> [] \<and> r \<noteq> me)
             \<and> sigType sg \<noteq> USER_ONLINE
          then Inr s
          else if senderId sg = me then Inr s
          else
            (let sender = senderId sg;
                 inList = (case activeCallData s of
                             None \<Rightarrow> False
                           | Some ps \<Rightarrow> sender \<in> set ps)
             in case sigType sg of
                  USER_ONLINE \<Rightarrow> Inr s
                | OFFER \<Rightarrow>
                    if isInCall s \<and> \<not> inList then Inr s
                    else if isInCall s \<and> inList then
                      (case map_of (peerConnections s) sender of
                         None \<Rightarrow> Inr s
                       | Some pc \<Rightarrow>
                           (case sdpOf (sigPayload sg) of
                              None \<Rightarrow> Inl (UnhandledRejection, s)
                            | Some d \<Rightarrow>
                                if \<not> pcSetRemoteOk e sender then Inl (UnhandledRejection, s)
                                else
                                  (let s1 = pcApply sender (SetRemoteDescription d) s
                                   in case pcCreateAnswer e sender of
                                        None \<Rightarrow> Inl (UnhandledRejection, s1)
                                      | Some ans \<Rightarrow>
                                          if \<not> pcSetLocalOk e sender
                                          then Inl (UnhandledRejection, s1)
                                          else Inr (sendSignal e ANSWER (Some sender) (sdpPayload ans)
                                                      (pcApply sender (SetLocalDescription ans) s1)))))
                    else
                      Inr (s\<lparr>incomingCall :=
                               Some \<lparr> callerId = sender, timestamp = dateNow e 0,
                                      offer = sdpOf (sigPayload sg) \<rparr>\<rparr>)
                | ANSWER \<Rightarrow>
                    (case map_of (peerConnections s) sender of
                       None \<Rightarrow> Inr s
                     | Some pc \<Rightarrow>
                         (case sdpOf (sigPayload sg) of
                            None \<Rightarrow> Inl (UnhandledRejection, s)
                          | Some d \<Rightarrow>
                              if \<not> pcSetRemoteOk e sender then Inl (UnhandledRejection, s)
                              else
                                (let s1 = pcApply sender (SetRemoteDescription d) s
                                 in Inr (s1\<lparr>activeCallData :=
                                              (case activeCallData s1 of
                                                 None \<Rightarrow> None
                                               | Some ps \<Rightarrow>
                                                   if sender \<in> set ps then Some ps
                                                   else Some (ps @ [sender]))\<rparr>))))
                | CANDIDATE \<Rightarrow>
                    (case (map_of (peerConnections s) sender, candidateOf (sigPayload sg)) of
                       (Some pc, Some c) \<Rightarrow>
                         if pcAddIceOk e sender then Inr (pcApply sender (AddIceCandidate c) s)
                         else Inr (logConsole ''Error adding ice candidate'' s)
                     | _ \<Rightarrow> Inr s)
                | HANGUP \<Rightarrow>
                    Inr (handleRemoteHangup sender
                           (case incomingCall s of
                              None \<Rightarrow> s
                            | Some ic \<Rightarrow>
                                if callerId ic = sender then missedCall e me sender s else s))))"

text \<open>The status callback of the channel subscription: \<^verbatim>\<open>SUBSCRIBED\<close> marks the transport
  connected and announces the user; any other status marks it disconnected.\<close>

definition onSubscribeStatus :: "env \<Rightarrow> bool \<Rightarrow> app_state \<Rightarrow> app_state" where
  "onSubscribeStatus e subscribed s =
     (if subscribed
      then sendSignal e USER_ONLINE None emptyPayload (s\<lparr>isSignalingConnected := True\<rparr>)
      else s\<lparr>isSignalingConnected := False\<rparr>)"

section \<open>Sequences of operations\<close>

text \<open>The operations of the call core: the call actions and media toggles the context
  exports, the handler of a received envelope, and the callbacks of the channel
  subscription and of a peer connection.  Login and logout (which ends with
  \<^verbatim>\<open>cleanupCall\<close>) and the \<^verbatim>\<open>ended\<close> event of a shared screen track are outside the
  sequences considered here.\<close>

datatype action =
    StartCall user_id
  | StartGroupCall "user_id list"
  | AddToCall user_id
  | AcceptIncomingCall
  | RejectIncomingCall
  | EndCall
  | ToggleMic
  | ToggleCamera
  | ToggleScreenShare
  | Receive signal_data
  | SubscribeStatus bool
  | IceCandidate user_id "candidate option"
  | TrackEvent user_id track "track list option"

text \<open>One operation, with what the collaborators answer while it runs.  A handler that
  ends in an unhandled rejection leaves the state it had reached.\<close>

fun step :: "app_state \<Rightarrow> env \<times> action \<Rightarrow> app_state" where
  "step s (e, StartCall r) = startCall e r s"
| "step s (e, StartGroupCall rs) = startGroupCall e rs s"
| "step s (e, AddToCall r) = addToCall e r s"
| "step s (e, AcceptIncomingCall) = acceptIncomingCall e s"
| "step s (e, RejectIncomingCall) = rejectIncomingCall e s"
| "step s (e, EndCall) = endCall e s"
| "step s (e, ToggleMic) = toggleMic e s"
| "step s (e, ToggleCamera) = toggleCamera e s"
| "step s (e, ToggleScreenShare) = toggleScreenShare e s"
| "step s (e, Receive sg) = (case onSignal e sg s of Inl (err, s') \<Rightarrow> s' | Inr s' \<Rightarrow> s')"
| "step s (e, SubscribeStatus b) = onSubscribeStatus e b s"
| "step s (e, IceCandidate r c) = onIceCandidate e r c s"
| "step s (e, TrackEvent r t ts) = onTrack r t ts s"

definition run :: "app_state \<Rightarrow> (env \<times> action) list \<Rightarrow> app_state" where
  "run s evs = foldl step s evs"

section \<open>Notions used in the statements\<close>

text \<open>\<open>frame s s'\<close>: the state \<open>s'\<close> differs from \<open>s\<close> at most in the registry, the
  envelopes handed to the channel and the console.\<close>

definition frame :: "app_state \<Rightarrow> app_state \<Rightarrow> bool" where
  "frame s s' =
     (s' = s\<lparr>peerConnections := peerConnections s', outbox := outbox s', console := console s'\<rparr>)"

text \<open>The invariant of the call state: in a call exactly when a participant list is stored,
  and a stored list is never empty.\<close>

definition callInv :: "app_state \<Rightarrow> bool" where
  "callInv s = ((isInCall s \<longleftrightarrow> activeCallData s \<noteq> None) \<and> activeCallData s \<noteq> Some [])"

text \<open>The invariant of the microphone flag: every audio track of the local stream is
  enabled exactly when \<open>isMicOn\<close> says so.\<close>

definition micInv :: "app_state \<Rightarrow> bool" where
  "micInv s = (\<forall>ts. localStream s = Some ts \<longrightarrow>
                 (\<forall>t \<in> set ts. trackKind t = AudioKind \<longrightarrow> trackEnabled t = isMicOn s))"

text \<open>The \<^verbatim>\<open>OFFER\<close> envelopes that one negotiation with the peer \<open>r\<close>, started in the state
  \<open>s\<close>, hands to the channel: one when the local offer is created and set and the
  transport is connected, none otherwise.  It looks at this peer's results only.\<close>

definition offerEnvelopes :: "env \<Rightarrow> app_state \<Rightarrow> user_id \<Rightarrow> signal_data list" where
  "offerEnvelopes e s r =
     (if signalingChannel s \<and> isSignalingConnected s \<and> pcSetLocalOk e r
      then (case (currentUser s, pcCreateOffer e r) of
              (Some me, Some off) \<Rightarrow>
                [\<lparr> sigType = OFFER, senderId = me, recipientId = Some r,
                    sigPayload = sdpPayload off \<rparr>]
            | _ \<Rightarrow> [])
      else [])"

text \<open>Every audio track with its \<open>enabled\<close> flag negated.\<close>

definition flipAudio :: "track list \<Rightarrow> track list" where
  "flipAudio ts =
     map (\<lambda>t. if trackKind t = AudioKind then t\<lparr>trackEnabled := \<not> trackEnabled t\<rparr> else t) ts"

section \<open>Concrete scenarios\<close>

definition micTrack :: track where
  "micTrack = \<lparr> trackId = 1, trackKind = AudioKind, trackLabel = ''Default microphone'',
                 displaySurface = False, trackEnabled = True, contentHint = None \<rparr>"

definition camTrack :: track where
  "camTrack = \<lparr> trackId = 2, trackKind = VideoKind, trackLabel = ''HD Webcam'',
                 displaySurface = False, trackEnabled = True, contentHint = None \<rparr>"

text \<open>A display capture of a window, on a platform whose tracks report no
  \<^verbatim>\<open>displaySurface\<close>: the label is the title of the window.\<close>

definition windowTrack :: track where
  "windowTrack = \<lparr> trackId = 3, trackKind = VideoKind, trackLabel = ''Quarterly report'',
                    displaySurface = False, trackEnabled = True, contentHint = Some [] \<rparr>"

text \<open>Collaborators that grant and accept everything.\<close>

definition envOk :: env where
  "envOk = \<lparr> dateNow = (\<lambda>k. 1000 + k), mathRandom = (\<lambda>k. k),
              getUserMedia = Some [micTrack], getDisplayMedia = Some [windowTrack],
              pcCreateOffer = (\<lambda>r. Some (''offer'', r)),
              pcCreateAnswer = (\<lambda>r. Some (''answer'', r)),
              pcSetLocalOk = (\<lambda>r. True), pcSetRemoteOk = (\<lambda>r. True),
              pcAddIceOk = (\<lambda>r. True), pcAttachOk = (\<lambda>r. True),
              pcHasVideoTransceiver = (\<lambda>r. False), channelSendOk = (\<lambda>g. True),
              notifInsertError = False, msgInsertError = False \<rparr>"

definition demoUsers :: "(user_id \<times> string) list" where
  "demoUsers = [(''A'', ''Ann''), (''B'', ''Bob''), (''C'', ''Cy'')]"

definition signalFrom :: "user_id \<Rightarrow> signal_type \<Rightarrow> user_id \<Rightarrow> payload \<Rightarrow> signal_data" where
  "signalFrom a ty b pl = \<lparr> sigType = ty, senderId = a, recipientId = Some b, sigPayload = pl \<rparr>"

text \<open>User A, subscribed, in a call with B that A started.\<close>

definition inCallWithB :: app_state where
  "inCallWithB = run (initialState (Some ''A'') demoUsers)
                   [(envOk, SubscribeStatus True), (envOk, StartCall ''B'')]"

text \<open>User B, subscribed, with an offer from A pending.\<close>

definition pendingFromA :: app_state where
  "pendingFromA = run (initialState (Some ''B'') demoUsers)
     [(envOk, SubscribeStatus True),
      (envOk, Receive (signalFrom ''A'' OFFER ''B'' (sdpPayload (''offer'', ''from A''))))]"

text \<open>A later run of a handler: the clock has advanced.\<close>

definition envLater :: env where
  "envLater = envOk\<lparr>dateNow := (\<lambda>k. 2000 + k)\<rparr>"

text \<open>Offer creation fails on every connection.\<close>

definition envNoOffer :: env where
  "envNoOffer = envOk\<lparr>pcCreateOffer := (\<lambda>r. None)\<rparr>"

text \<open>Offer creation fails on the connection to B only.\<close>

definition envNoOfferB :: env where
  "envNoOfferB = envOk\<lparr>pcCreateOffer := (\<lambda>r. if r = ''B'' then None else Some (''offer'', r))\<rparr>"

text \<open>The capture of the camera succeeds.\<close>

definition envCam :: env where
  "envCam = envOk\<lparr>getUserMedia := Some [camTrack]\<rparr>"

text \<open>The remote description is refused (a garbled offer).\<close>

definition envBadOffer :: env where
  "envBadOffer = envOk\<lparr>pcSetRemoteOk := (\<lambda>r. False)\<rparr>"

text \<open>The insert of the notification row fails.\<close>

definition envNotifFails :: env where
  "envNotifFails = envOk\<lparr>notifInsertError := True\<rparr>"

text \<open>A display capture that the platform labels and reports as a screen.\<close>

definition screenTrack0 :: track where
  "screenTrack0 = \<lparr> trackId = 4, trackKind = VideoKind, trackLabel = ''screen:0:0'',
                     displaySurface = True, trackEnabled = True, contentHint = Some [] \<rparr>"

definition envScreen :: env where
  "envScreen = envOk\<lparr>getDisplayMedia := Some [screenTrack0]\<rparr>"

text \<open>User A, subscribed, in a call with B and C that A started.\<close>

definition inCallWithBC :: app_state where
  "inCallWithBC = run (initialState (Some ''A'') demoUsers)
                    [(envOk, SubscribeStatus True), (envOk, StartGroupCall [''B'', ''C''])]"

text \<open>User B accepts a garbled offer of A (the accept fails after the capture and the
  creation of the connection), shares the screen, and A hangs up.\<close>

definition acceptFailedThenShared :: app_state where
  "acceptFailedThenShared = run (initialState (Some ''B'') demoUsers)
     [(envOk, SubscribeStatus True),
      (envOk, Receive (signalFrom ''A'' OFFER ''B'' (sdpPayload (''offer'', ''garbled'')))),
      (envBadOffer, AcceptIncomingCall),
      (envScreen, ToggleScreenShare),
      (envOk, Receive (signalFrom ''A'' HANGUP ''B'' emptyPayload))]"

text \<open>User A, subscribed and idle.\<close>

definition idleConnectedA :: app_state where
  "idleConnectedA = run (initialState (Some ''A'') demoUsers) [(envOk, SubscribeStatus True)]"

section \<open>Frame lemmas\<close>

lemma frame_refl: "frame s s"
  by (simp add: frame_def)

lemma frame_trans: "frame s s' \<Longrightarrow> frame s' s'' \<Longrightarrow> frame s s''"
proof -
  assume a: "frame s s'" and b: "frame s' s''"
  have "s'' = s'\<lparr>peerConnections := peerConnections s'', outbox := outbox s'', console := console s''\<rparr>"
    using b by (simp add: frame_def)
  also have "s' = s\<lparr>peerConnections := peerConnections s', outbox := outbox s', console := console s'\<rparr>"
    using a by (simp add: frame_def)
  finally show ?thesis by (simp add: frame_def)
qed

lemma frame_fields:
  assumes "frame s s'"
  shows "currentUser s' = currentUser s" "users s' = users s" "incomingCall s' = incomingCall s"
    "isInCall s' = isInCall s" "activeCallData s' = activeCallData s"
    "localStream s' = localStream s" "remoteStreams s' = remoteStreams s"
    "isScreenSharing s' = isScreenSharing s" "isMicOn s' = isMicOn s" "isCameraOn s' = isCameraOn s"
    "signalingChannel s' = signalingChannel s" "isSignalingConnected s' = isSignalingConnected s"
    "dbInserts s' = dbInserts s" "alerts s' = alerts s" "stoppedTracks s' = stoppedTracks s"
    "captureRequests s' = captureRequests s"
proof -
  have eq: "s' = s\<lparr>peerConnections := peerConnections s', outbox := outbox s', console := console s'\<rparr>"
    using assms by (simp add: frame_def)
  show "currentUser s' = currentUser s" by (subst eq) simp
  show "users s' = users s" by (subst eq) simp
  show "incomingCall s' = incomingCall s" by (subst eq) simp
  show "isInCall s' = isInCall s" by (subst eq) simp
  show "activeCallData s' = activeCallData s" by (subst eq) simp
  show "localStream s' = localStream s" by (subst eq) simp
  show "remoteStreams s' = remoteStreams s" by (subst eq) simp
  show "isScreenSharing s' = isScreenSharing s" by (subst eq) simp
  show "isMicOn s' = isMicOn s" by (subst eq) simp
  show "isCameraOn s' = isCameraOn s" by (subst eq) simp
  show "signalingChannel s' = signalingChannel s" by (subst eq) simp
  show "isSignalingConnected s' = isSignalingConnected s" by (subst eq) simp
  show "dbInserts s' = dbInserts s" by (subst eq) simp
  show "alerts s' = alerts s" by (subst eq) simp
  show "stoppedTracks s' = stoppedTracks s" by (subst eq) simp
  show "captureRequests s' = captureRequests s" by (subst eq) simp
qed

lemma frame_fold: "(\<And>x t. frame t (f x t)) \<Longrightarrow> frame s (fold f xs s)"
proof (induction xs arbitrary: s)
  case Nil
  show ?case by (simp add: frame_refl)
next
  case (Cons x xs)
  have "frame s (f x s)" by (rule Cons.prems)
  moreover have "frame (f x s) (fold f xs (f x s))" by (rule Cons.IH) (rule Cons.prems)
  ultimately show ?case by (simp add: frame_trans)
qed

lemma frame_logConsole: "frame s (logConsole m s)"
  by (simp add: frame_def logConsole_def)

lemma frame_sendSignal: "frame s (sendSignal e ty r p s)"
  by (simp add: frame_def sendSignal_def logConsole_def Let_def split: option.splits)

lemma frame_pcApply: "frame s (pcApply r c s)"
  by (simp add: frame_def pcApply_def)

lemma frame_createPeerConnection: "frame s (createPeerConnection r s)"
  by (simp add: frame_def createPeerConnection_def)

lemma frame_addTracksToPc: "frame s (addTracksToPc r ts s)"
  unfolding addTracksToPc_def by (rule frame_fold) (rule frame_pcApply)

lemma frame_negotiateOffer: "negotiateOffer e r s = Some s' \<Longrightarrow> frame s s'"
  by (auto simp: negotiateOffer_def split: option.splits if_splits
      intro: frame_trans [OF frame_pcApply frame_sendSignal])

lemma frame_renegotiatePeer: "frame s (renegotiatePeer e r s)"
  by (auto simp: renegotiatePeer_def frame_logConsole split: option.splits
      dest: frame_negotiateOffer)

lemma frame_renegotiate: "frame s (renegotiate e c s)"
  unfolding renegotiate_def by (auto simp: frame_refl intro: frame_fold frame_renegotiatePeer)

lemma frame_detachVideo: "frame s (detachVideo e r s)"
  by (simp add: detachVideo_def frame_refl frame_pcApply)

lemma frame_attachVideo: "frame s (attachVideo e v r s)"
  by (auto simp: attachVideo_def intro: frame_trans [OF frame_pcApply frame_pcApply] frame_pcApply)

lemma frame_attachAll: "frame s (snd (attachAll e v rs s))"
proof (induction rs arbitrary: s)
  case Nil
  show ?case by (simp add: frame_refl)
next
  case (Cons r rs)
  show ?case
    using frame_trans [OF frame_attachVideo Cons.IH] by (simp add: frame_refl)
qed

lemma frame_callRecipient: "frame s (callRecipient e st r s)"
proof -
  let ?s1 = "addTracksToPc r st (createPeerConnection r s)"
  have 1: "frame s ?s1"
    by (rule frame_trans [OF frame_createPeerConnection frame_addTracksToPc])
  show ?thesis
  proof (cases "negotiateOffer e r ?s1")
    case None
    then show ?thesis
      using frame_trans [OF 1 frame_logConsole] by (simp add: callRecipient_def)
  next
    case (Some s2)
    then show ?thesis
      using frame_trans [OF 1 frame_negotiateOffer [OF Some]] by (simp add: callRecipient_def)
  qed
qed

lemmas sendSignal_fields = frame_fields [OF frame_sendSignal]
lemmas logConsole_fields = frame_fields [OF frame_logConsole]
lemmas pcApply_fields = frame_fields [OF frame_pcApply]
lemmas createPeerConnection_fields = frame_fields [OF frame_createPeerConnection]
lemmas addTracksToPc_fields = frame_fields [OF frame_addTracksToPc]
lemmas renegotiatePeer_fields = frame_fields [OF frame_renegotiatePeer]
lemmas renegotiate_fields = frame_fields [OF frame_renegotiate]
lemmas detachVideo_fields = frame_fields [OF frame_detachVideo]
lemmas attachVideo_fields = frame_fields [OF frame_attachVideo]
lemmas attachAll_fields = frame_fields [OF frame_attachAll]
lemmas callRecipient_fields = frame_fields [OF frame_callRecipient]
lemmas fold_callRecipient_fields = frame_fields [OF frame_fold [of "callRecipient e st" for e st, OF frame_callRecipient]]
lemmas fold_detachVideo_fields = frame_fields [OF frame_fold [of "detachVideo e" for e, OF frame_detachVideo]]
lemmas fold_sendSignal_fields = frame_fields [OF frame_fold [of "\<lambda>pid. sendSignal e ty (Some pid) p" for e ty p, OF frame_sendSignal]]

lemmas helper_fields = sendSignal_fields logConsole_fields pcApply_fields createPeerConnection_fields
  addTracksToPc_fields renegotiatePeer_fields renegotiate_fields detachVideo_fields attachVideo_fields
  attachAll_fields callRecipient_fields fold_callRecipient_fields fold_detachVideo_fields
  fold_sendSignal_fields

lemma frame_callInv: "frame s s' \<Longrightarrow> callInv s' = callInv s"
  by (simp add: callInv_def frame_fields)

lemma frame_micInv: "frame s s' \<Longrightarrow> micInv s' = micInv s"
  by (simp add: micInv_def frame_fields)

lemma stopScreenSharing_call:
  "isInCall (stopScreenSharing e s) = isInCall s"
  "activeCallData (stopScreenSharing e s) = activeCallData s"
  "incomingCall (stopScreenSharing e s) = incomingCall s"
  "isMicOn (stopScreenSharing e s) = isMicOn s"
  by (simp_all add: stopScreenSharing_def Let_def helper_fields split: option.splits)

lemma toggleMic_call:
  "isInCall (toggleMic e s) = isInCall s"
  "activeCallData (toggleMic e s) = activeCallData s"
  by (simp_all add: toggleMic_def Let_def helper_fields split: option.splits)

lemma toggleCamera_call:
  "isInCall (toggleCamera e s) = isInCall s"
  "activeCallData (toggleCamera e s) = activeCallData s"
  by (simp_all add: toggleCamera_def Let_def helper_fields stopScreenSharing_call
      case_prod_unfold bool.case_eq_if split: option.splits list.splits)

lemma toggleScreenShare_call:
  "isInCall (toggleScreenShare e s) = isInCall s"
  "activeCallData (toggleScreenShare e s) = activeCallData s"
  by (simp_all add: toggleScreenShare_def Let_def helper_fields stopScreenSharing_call
      case_prod_unfold bool.case_eq_if split: option.splits list.splits)

lemma initiateCallConnection_call:
  "isInCall (initiateCallConnection e r s) = isInCall s"
  "activeCallData (initiateCallConnection e r s) = activeCallData s"
  by (simp_all add: initiateCallConnection_def Let_def helper_fields
      frame_fields [OF frame_negotiateOffer] split: option.splits)

lemma callInv_startGroupCall: "callInv s \<Longrightarrow> callInv (startGroupCall e rs s)"
  by (simp add: startGroupCall_def Let_def callInv_def helper_fields split: option.splits)

lemma callInv_addToCall: "callInv s \<Longrightarrow> callInv (addToCall e r s)"
  by (auto simp: addToCall_def Let_def callInv_def initiateCallConnection_call split: option.splits)

lemma callInv_acceptIncomingCall: "callInv s \<Longrightarrow> callInv (acceptIncomingCall e s)"
  by (simp add: acceptIncomingCall_def Let_def callInv_def helper_fields split: option.splits)

lemma callInv_rejectIncomingCall: "callInv s \<Longrightarrow> callInv (rejectIncomingCall e s)"
  by (simp add: rejectIncomingCall_def callInv_def helper_fields split: option.splits)

lemma callInv_cleanupCall: "callInv (cleanupCall s)"
  by (simp add: cleanupCall_def callInv_def)

lemma callInv_endCall: "callInv (endCall e s)"
  by (simp add: endCall_def callInv_cleanupCall)

lemma callInv_handleRemoteHangup: "callInv s \<Longrightarrow> callInv (handleRemoteHangup x s)"
  by (auto simp: handleRemoteHangup_def Let_def callInv_def cleanupCall_def split: option.splits)

lemma missedCall_call:
  "isInCall (missedCall e me x s) = isInCall s"
  "activeCallData (missedCall e me x s) = activeCallData s"
  by (simp_all add: missedCall_def Let_def logConsole_def)

lemma callInv_onSignal:
  "callInv s \<Longrightarrow> callInv (case onSignal e sg s of Inl (err, s') \<Rightarrow> s' | Inr s' \<Rightarrow> s')"
proof (cases "sigType sg")
  case HANGUP
  assume inv: "callInv s"
  have m: "callInv (missedCall e me x s)" for me x
    using inv by (simp add: callInv_def missedCall_call)
  show ?thesis
    using inv m HANGUP
    by (simp add: onSignal_def Let_def callInv_handleRemoteHangup split: option.splits)
qed (auto simp: onSignal_def Let_def callInv_def helper_fields split: option.splits)

lemma callInv_others:
  assumes "callInv s"
  shows "callInv (toggleMic e s)" "callInv (toggleCamera e s)" "callInv (toggleScreenShare e s)"
    "callInv (onSubscribeStatus e b s)" "callInv (onIceCandidate e r c s)" "callInv (onTrack r t ts s)"
  using assms
  by (simp_all add: callInv_def toggleMic_call toggleCamera_call toggleScreenShare_call
      onSubscribeStatus_def onIceCandidate_def onTrack_def helper_fields split: option.splits)

lemma callInv_step: "callInv s \<Longrightarrow> callInv (step s ev)"
proof (cases ev)
  case (Pair e a)
  assume inv: "callInv s"
  show ?thesis
  proof (cases a)
    case (Receive sg)
    then show ?thesis using Pair inv callInv_onSignal [of s e sg] by simp
  qed (use Pair inv in \<open>simp_all add: callInv_startGroupCall startCall_def callInv_addToCall
        callInv_acceptIncomingCall callInv_rejectIncomingCall callInv_endCall callInv_others\<close>)
qed

lemma callInv_run: "callInv s \<Longrightarrow> callInv (run s evs)"
  unfolding run_def by (induction evs arbitrary: s) (simp_all add: callInv_step)

lemma callInv_initialState: "callInv (initialState u us)"
  by (simp add: callInv_def initialState_def)

section \<open>Envelopes of a negotiation\<close>

lemma outbox_logConsole: "outbox (logConsole m s) = outbox s"
  by (simp add: logConsole_def)

lemma outbox_pcApply: "outbox (pcApply r c s) = outbox s"
  by (simp add: pcApply_def)

lemma outbox_createPeerConnection: "outbox (createPeerConnection r s) = outbox s"
  by (simp add: createPeerConnection_def)

lemma outbox_addTracksToPc: "outbox (addTracksToPc r ts s) = outbox s"
  unfolding addTracksToPc_def by (induction ts arbitrary: s) (simp_all add: outbox_pcApply)

lemma offerEnvelopes_cong:
  assumes "currentUser s' = currentUser s" and "signalingChannel s' = signalingChannel s"
    and "isSignalingConnected s' = isSignalingConnected s"
  shows "offerEnvelopes e s' = offerEnvelopes e s"
  by (rule ext) (simp add: offerEnvelopes_def assms)

lemma offerEnvelopes_frame: "frame s s' \<Longrightarrow> offerEnvelopes e s' = offerEnvelopes e s"
  by (rule offerEnvelopes_cong) (simp_all add: frame_fields)

lemma outbox_sendSignal_OFFER:
  "outbox (sendSignal e OFFER (Some r) (sdpPayload off) s) =
     outbox s @ (case currentUser s of
                   Some me \<Rightarrow>
                     if signalingChannel s \<and> isSignalingConnected s
                     then [\<lparr> sigType = OFFER, senderId = me, recipientId = Some r,
                               sigPayload = sdpPayload off \<rparr>]
                     else []
                 | None \<Rightarrow> [])"
  by (simp add: sendSignal_def Let_def logConsole_def split: option.splits)

lemma outbox_negotiateOffer:
  "outbox (case negotiateOffer e r s of Some s' \<Rightarrow> s' | None \<Rightarrow> logConsole m s) =
     outbox s @ offerEnvelopes e s r"
  by (simp add: negotiateOffer_def offerEnvelopes_def outbox_sendSignal_OFFER pcApply_fields
      outbox_pcApply outbox_logConsole split: option.splits)

lemma outbox_renegotiatePeer:
  "outbox (renegotiatePeer e r s) = outbox s @ offerEnvelopes e s r"
  unfolding renegotiatePeer_def by (rule outbox_negotiateOffer)

lemma outbox_fold_renegotiatePeer:
  "outbox (fold (renegotiatePeer e) rs s) = outbox s @ concat (map (offerEnvelopes e s) rs)"
proof (induction rs arbitrary: s)
  case Nil
  show ?case by simp
next
  case (Cons r rs)
  have "offerEnvelopes e (renegotiatePeer e r s) = offerEnvelopes e s"
    by (rule offerEnvelopes_frame [OF frame_renegotiatePeer])
  then show ?case
    by (simp add: Cons.IH outbox_renegotiatePeer)
qed

lemma outbox_callRecipient:
  "outbox (callRecipient e st r s) = outbox s @ offerEnvelopes e s r"
proof -
  let ?s1 = "addTracksToPc r st (createPeerConnection r s)"
  have "frame s ?s1"
    by (rule frame_trans [OF frame_createPeerConnection frame_addTracksToPc])
  then have "offerEnvelopes e ?s1 r = offerEnvelopes e s r"
    by (simp add: offerEnvelopes_frame)
  moreover have "outbox ?s1 = outbox s"
    by (simp add: outbox_addTracksToPc outbox_createPeerConnection)
  ultimately show ?thesis
    using outbox_negotiateOffer [where e = e and r = r and s = ?s1 and m = "''Failed to call '' @ r"]
    by (simp add: callRecipient_def Let_def)
qed

lemma outbox_fold_callRecipient:
  "outbox (fold (callRecipient e st) rs s) = outbox s @ concat (map (offerEnvelopes e s) rs)"
proof (induction rs arbitrary: s)
  case Nil
  show ?case by simp
next
  case (Cons r rs)
  have "offerEnvelopes e (callRecipient e st r s) = offerEnvelopes e s"
    by (rule offerEnvelopes_frame [OF frame_callRecipient])
  then show ?case
    by (simp add: Cons.IH outbox_callRecipient)
qed

lemma offerEnvelopes_sent:
  assumes "currentUser s = Some me" and "signalingChannel s" and "isSignalingConnected s"
    and "pcCreateOffer e r = Some off" and "pcSetLocalOk e r"
  shows "offerEnvelopes e s r =
           [\<lparr> sigType = OFFER, senderId = me, recipientId = Some r, sigPayload = sdpPayload off \<rparr>]"
  using assms by (simp add: offerEnvelopes_def)

lemma offerEnvelopes_none:
  "pcCreateOffer e r = None \<Longrightarrow> offerEnvelopes e s r = []"
  by (simp add: offerEnvelopes_def split: option.splits)

lemma offerEnvelopes_some:
  "currentUser s = Some me \<Longrightarrow> pcCreateOffer e r = Some off \<Longrightarrow>
     offerEnvelopes e s r =
       (if signalingChannel s \<and> isSignalingConnected s \<and> pcSetLocalOk e r
        then [\<lparr> sigType = OFFER, senderId = me, recipientId = Some r,
                  sigPayload = sdpPayload off \<rparr>]
        else [])"
  by (simp add: offerEnvelopes_def)

lemma offerEnvelopes_mem:
  assumes "currentUser s = Some me"
  shows "(sg \<in> set (offerEnvelopes e s r)) =
           (signalingChannel s \<and> isSignalingConnected s \<and>
            (\<exists>off. pcCreateOffer e r = Some off \<and> pcSetLocalOk e r \<and>
               sg = \<lparr> sigType = OFFER, senderId = me, recipientId = Some r,
                       sigPayload = sdpPayload off \<rparr>))"
proof (cases "pcCreateOffer e r")
  case None
  then show ?thesis by (simp add: offerEnvelopes_none)
next
  case (Some off)
  then show ?thesis by (auto simp add: offerEnvelopes_some [OF assms])
qed

section \<open>The microphone flag agrees with the audio tracks\<close>

lemma setAudioEnabled_audio:
  "t \<in> set (setAudioEnabled b ts) \<Longrightarrow> trackKind t = AudioKind \<Longrightarrow> trackEnabled t = b"
  by (auto simp: setAudioEnabled_def split: if_splits)

lemma micInv_fresh:
  "localStream s = Some (setAudioEnabled False ms) \<Longrightarrow> \<not> isMicOn s \<Longrightarrow> micInv s"
  by (auto simp: micInv_def dest: setAudioEnabled_audio)

lemma micInv_none: "localStream s = None \<Longrightarrow> micInv s"
  by (simp add: micInv_def)

lemma micInv_same:
  "micInv s \<Longrightarrow> localStream s' = localStream s \<Longrightarrow> isMicOn s' = isMicOn s \<Longrightarrow> micInv s'"
  by (simp add: micInv_def)

lemma micInv_toggleMic: "micInv s \<Longrightarrow> micInv (toggleMic e s)"
  by (auto simp: toggleMic_def Let_def micInv_def helper_fields logConsole_def
      dest: setAudioEnabled_audio split: option.splits)

lemma getVideoTracks_kind: "getVideoTracks ms = v # vs \<Longrightarrow> trackKind v = VideoKind"
proof -
  assume "getVideoTracks ms = v # vs"
  then have "v \<in> set (getVideoTracks ms)" by simp
  then show ?thesis by (simp add: getVideoTracks_def)
qed

lemma micInv_video:
  assumes "micInv s" and "localStream s = Some cur" and "isMicOn s' = isMicOn s"
    and "localStream s' = Some ts'" and "\<forall>t \<in> set ts'. t \<in> set cur \<or> trackKind t = VideoKind"
  shows "micInv s'"
  using assms by (auto simp: micInv_def)

lemma micInv_stopScreenSharing: "micInv s \<Longrightarrow> micInv (stopScreenSharing e s)"
  by (auto simp: stopScreenSharing_def Let_def micInv_def helper_fields split: option.splits)

lemma stopScreenSharing_stream:
  "localStream s = Some ts \<Longrightarrow>
     \<exists>ts'. localStream (stopScreenSharing e s) = Some ts' \<and> set ts' \<subseteq> set ts"
  by (auto simp: stopScreenSharing_def Let_def helper_fields split: option.splits)

lemma micInv_toggleCamera: "micInv s \<Longrightarrow> micInv (toggleCamera e s)"
proof (cases "localStream s")
  case None
  assume "micInv s"
  then show ?thesis using None by (simp add: toggleCamera_def)
next
  case (Some tracks)
  assume inv: "micInv s"
  show ?thesis
  proof (cases "isCameraOn s")
    case True
    then show ?thesis
      using inv Some by (auto simp: toggleCamera_def Let_def micInv_def helper_fields)
  next
    case False
    let ?s1 = "s\<lparr>captureRequests := captureRequests s @ [GetUserMedia True False]\<rparr>"
    have inv1: "micInv ?s1" using inv by (simp add: micInv_def)
    show ?thesis
    proof (cases "getUserMedia e")
      case None
      then show ?thesis
        using inv1 Some False by (simp add: toggleCamera_def Let_def micInv_def helper_fields)
    next
      case (Some ms)
      let ?s2 = "if isScreenSharing s then stopScreenSharing e ?s1 else ?s1"
      have inv2: "micInv ?s2" using inv1 by (simp add: micInv_stopScreenSharing)
      have mic2: "isMicOn ?s2 = isMicOn s" by (simp add: stopScreenSharing_call)
      obtain cur where cur: "localStream ?s2 = Some cur"
        using stopScreenSharing_stream [of ?s1 tracks e] \<open>localStream s = Some tracks\<close>
        by (cases "isScreenSharing s") auto
      show ?thesis
      proof (cases "getVideoTracks ms")
        case Nil
        then show ?thesis
          using inv2 mic2 Some False \<open>localStream s = Some tracks\<close> cur
          by (simp add: toggleCamera_def Let_def micInv_def helper_fields)
      next
        case (Cons v vs)
        have v: "trackKind v = VideoKind" using Cons by (rule getVideoTracks_kind)
        have obj: "\<forall>t \<in> set (addTrack v cur). t \<in> set cur \<or> trackKind t = VideoKind"
          using v by (auto simp: addTrack_def)
        have key0: "\<forall>t \<in> set cur. trackKind t = AudioKind \<longrightarrow> trackEnabled t = isMicOn s"
          using inv2 mic2 cur by (simp add: micInv_def)
        have key: "\<forall>t \<in> set (addTrack v cur). trackKind t = AudioKind \<longrightarrow> trackEnabled t = isMicOn s"
          using key0 obj v by auto
        show ?thesis
        proof (cases "isScreenSharing s")
          case True
          then show ?thesis
            using Some False \<open>localStream s = Some tracks\<close> cur Cons key0 key
            by (simp add: toggleCamera_def Let_def helper_fields case_prod_unfold bool.case_eq_if
                micInv_def stopScreenSharing_call)
        next
          case notsharing: False
          then show ?thesis
            using Some False \<open>localStream s = Some tracks\<close> cur Cons key0 key
            by (simp add: toggleCamera_def Let_def helper_fields case_prod_unfold bool.case_eq_if
                micInv_def)
        qed
      qed
    qed
  qed
qed

lemma micInv_toggleScreenShare: "micInv s \<Longrightarrow> micInv (toggleScreenShare e s)"
proof (cases "localStream s")
  case None
  assume "micInv s"
  then show ?thesis using None by (simp add: toggleScreenShare_def)
next
  case (Some tracks)
  assume inv: "micInv s"
  have key0: "\<forall>t \<in> set tracks. trackKind t = AudioKind \<longrightarrow> trackEnabled t = isMicOn s"
    using inv Some by (simp add: micInv_def)
  show ?thesis
  proof (cases "peerConnections s = [] \<or> isScreenSharing s")
    case True
    then show ?thesis
      using inv Some by (auto simp: toggleScreenShare_def micInv_stopScreenSharing)
  next
    case False
    show ?thesis
    proof (cases "getDisplayMedia e")
      case None
      then show ?thesis
        using False key0 Some by (simp add: toggleScreenShare_def Let_def micInv_def helper_fields)
    next
      case ms: (Some ms)
      show ?thesis
      proof (cases "getVideoTracks ms")
        case Nil
        then show ?thesis
          using False key0 Some ms
          by (simp add: toggleScreenShare_def Let_def micInv_def helper_fields)
      next
        case (Cons v0 vs)
        define v where "v = (case contentHint v0 of None \<Rightarrow> v0
                             | Some h \<Rightarrow> v0\<lparr>contentHint := Some ''detail''\<rparr>)"
        have "trackKind v0 = VideoKind" using Cons by (rule getVideoTracks_kind)
        then have v: "trackKind v = VideoKind"
          by (simp add: v_def split: option.splits)
        have key: "\<forall>t \<in> set (addTrack v xs). trackKind t = AudioKind \<longrightarrow> trackEnabled t = isMicOn s"
          if "set xs \<subseteq> set tracks" for xs
          using key0 v that by (auto simp: addTrack_def)
        have k1: "\<forall>t \<in> set (addTrack v tracks). trackKind t = AudioKind \<longrightarrow> trackEnabled t = isMicOn s"
          by (rule key) simp
        have k2: "\<forall>t \<in> set (addTrack v (filter (\<lambda>t. trackKind t \<noteq> VideoKind) tracks)).
                    trackKind t = AudioKind \<longrightarrow> trackEnabled t = isMicOn s"
          by (rule key) auto
        show ?thesis
          using False Some ms Cons k1 k2
          by (simp add: toggleScreenShare_def Let_def micInv_def helper_fields
              case_prod_unfold bool.case_eq_if v_def [symmetric])
      qed
    qed
  qed
qed

lemma micInv_startGroupCall: "micInv s \<Longrightarrow> micInv (startGroupCall e rs s)"
  by (auto simp: startGroupCall_def Let_def micInv_def helper_fields
      dest: setAudioEnabled_audio split: option.splits)

lemma initiateCallConnection_mic:
  "micInv s \<Longrightarrow> micInv (initiateCallConnection e r s)"
  by (auto simp: initiateCallConnection_def Let_def micInv_def helper_fields
      frame_fields [OF frame_negotiateOffer] dest: setAudioEnabled_audio split: option.splits)

lemma micInv_addToCall: "micInv s \<Longrightarrow> micInv (addToCall e r s)"
proof -
  assume inv: "micInv s"
  then have "micInv (initiateCallConnection e r s)" by (rule initiateCallConnection_mic)
  then show ?thesis using inv by (simp add: addToCall_def Let_def micInv_def)
qed

lemma micInv_acceptIncomingCall: "micInv s \<Longrightarrow> micInv (acceptIncomingCall e s)"
  by (auto simp: acceptIncomingCall_def Let_def micInv_def helper_fields
      dest: setAudioEnabled_audio split: option.splits)

lemma micInv_cleanupCall: "micInv (cleanupCall s)"
  by (simp add: micInv_def cleanupCall_def)

lemma micInv_handleRemoteHangup: "micInv s \<Longrightarrow> micInv (handleRemoteHangup x s)"
  by (auto simp: handleRemoteHangup_def Let_def micInv_def cleanupCall_def split: option.splits)

lemma micInv_onSignal:
  "micInv s \<Longrightarrow> micInv (case onSignal e sg s of Inl (err, s') \<Rightarrow> s' | Inr s' \<Rightarrow> s')"
proof (cases "sigType sg")
  case HANGUP
  assume inv: "micInv s"
  have m: "micInv (missedCall e me x s)" for me x
    using inv by (simp add: micInv_def missedCall_def Let_def logConsole_def)
  show ?thesis
    using inv m HANGUP
    by (simp add: onSignal_def Let_def micInv_handleRemoteHangup split: option.splits)
qed (auto simp: onSignal_def Let_def micInv_def helper_fields split: option.splits)

lemma micInv_others:
  assumes "micInv s"
  shows "micInv (rejectIncomingCall e s)" "micInv (endCall e s)"
    "micInv (onSubscribeStatus e b s)" "micInv (onIceCandidate e r c s)" "micInv (onTrack r t ts s)"
  using assms
  by (simp_all add: micInv_def rejectIncomingCall_def endCall_def cleanupCall_def
      onSubscribeStatus_def onIceCandidate_def onTrack_def helper_fields split: option.splits)

lemma micInv_step: "micInv s \<Longrightarrow> micInv (step s ev)"
proof (cases ev)
  case (Pair e a)
  assume inv: "micInv s"
  show ?thesis
  proof (cases a)
    case (Receive sg)
    then show ?thesis using Pair inv micInv_onSignal [of s e sg] by simp
  qed (use Pair inv in \<open>simp_all add: micInv_startGroupCall startCall_def micInv_addToCall
        micInv_acceptIncomingCall micInv_toggleMic micInv_toggleCamera micInv_toggleScreenShare
        micInv_others\<close>)
qed

lemma micInv_run: "micInv s \<Longrightarrow> micInv (run s evs)"
  unfolding run_def by (induction evs arbitrary: s) (simp_all add: micInv_step)

lemma micInv_initialState: "micInv (initialState u us)"
  by (simp add: micInv_def initialState_def)

lemma setAudioEnabled_flip:
  "\<forall>t \<in> set ts. trackKind t = AudioKind \<longrightarrow> trackEnabled t = b \<Longrightarrow>
     setAudioEnabled (\<not> b) ts = flipAudio ts"
  by (simp add: setAudioEnabled_def flipAudio_def)

section \<open>The call is active exactly while there are participants\<close>

text \<open>
  C1.  Whatever sequence of operations is run from the initial state (starting outbound
  calls, accepting and rejecting incoming calls, receiving envelopes of every kind,
  \<^verbatim>\<open>HANGUP\<close> among them, ending the call, and also adding participants and toggling media),
  and whatever the collaborators answer, \<open>isInCall\<close> is true if and only if the list of
  active participants is not empty.
\<close>

theorem C1_active_iff_participants:
  "isInCall (run (initialState u us) evs) \<longleftrightarrow>
     activeParticipants (run (initialState u us) evs) \<noteq> []"
  using callInv_run [OF callInv_initialState, of u us evs]
  by (auto simp: callInv_def activeParticipants_def split: option.splits)

theorem C1_active_iff_participants_witness:
  "isInCall inCallWithB \<and> activeParticipants inCallWithB = [''B''] \<and>
   \<not> isInCall (run inCallWithB [(envOk, Receive (signalFrom ''B'' HANGUP ''A'' emptyPayload))])"
proof -
  have a: "activeParticipants inCallWithB = [''B'']"
    by code_simp
  have b: "activeParticipants
             (run (initialState (Some ''A'') demoUsers)
                [(envOk, SubscribeStatus True), (envOk, StartCall ''B''),
                 (envOk, Receive (signalFrom ''B'' HANGUP ''A'' emptyPayload))]) = []"
    by code_simp
  have c: "run inCallWithB [(envOk, Receive (signalFrom ''B'' HANGUP ''A'' emptyPayload))] =
           run (initialState (Some ''A'') demoUsers)
                [(envOk, SubscribeStatus True), (envOk, StartCall ''B''),
                 (envOk, Receive (signalFrom ''B'' HANGUP ''A'' emptyPayload))]"
    by (simp add: inCallWithB_def run_def)
  show ?thesis
    using a b c
      C1_active_iff_participants [of "Some ''A''" demoUsers
        "[(envOk, SubscribeStatus True), (envOk, StartCall ''B'')]"]
      C1_active_iff_participants [of "Some ''A''" demoUsers
        "[(envOk, SubscribeStatus True), (envOk, StartCall ''B''),
          (envOk, Receive (signalFrom ''B'' HANGUP ''A'' emptyPayload))]"]
    by (simp add: inCallWithB_def)
qed

section \<open>A second offer while one is pending\<close>

text \<open>
  C2, as stated, fails.  B holds a pending offer from A and is not in a call; an \<^verbatim>\<open>OFFER\<close>
  from C arrives: the stored offer becomes the one of C.
\<close>

theorem C2_counterexample:
  "incomingCall pendingFromA =
     Some \<lparr> callerId = ''A'', timestamp = 1000, offer = Some (''offer'', ''from A'') \<rparr> \<and>
   phase_of pendingFromA = IncomingPending \<and>
   incomingCall (step pendingFromA
       (envLater, Receive (signalFrom ''C'' OFFER ''B'' (sdpPayload (''offer'', ''from C''))))) =
     Some \<lparr> callerId = ''C'', timestamp = 2000, offer = Some (''offer'', ''from C'') \<rparr>"
  by code_simp

text \<open>
  C2, amended.  One offer is stored at a time, the latest.  An \<^verbatim>\<open>OFFER\<close> envelope
  from another user, addressed to the local user or to nobody, received while the local
  user is not in a call, is stored as the pending offer (caller: its sender, timestamp:
  its arrival, remote description: its payload) whatever was pending before.  While the
  local user is in a call, an \<^verbatim>\<open>OFFER\<close> from a sender who is not a participant is ignored:
  the state, the pending offer with it, is unchanged.
\<close>

theorem C2_offer_replaces_pending:
  assumes "currentUser s = Some me" and "senderId sg \<noteq> me"
    and "recipientId sg = None \<or> recipientId sg = Some me" and "sigType sg = OFFER"
  shows "(\<not> isInCall s \<longrightarrow>
            onSignal e sg s =
              Inr (s\<lparr>incomingCall :=
                       Some \<lparr> callerId = senderId sg, timestamp = dateNow e 0,
                              offer = sdpOf (sigPayload sg) \<rparr>\<rparr>)) \<and>
         (isInCall s \<and> senderId sg \<notin> set (activeParticipants s) \<longrightarrow> onSignal e sg s = Inr s)"
  using assms
  by (auto simp: onSignal_def Let_def activeParticipants_def split: option.splits)

theorem C2_offer_replaces_pending_witness:
  "onSignal envLater (signalFrom ''C'' OFFER ''B'' (sdpPayload (''offer'', ''from C''))) pendingFromA =
     Inr (pendingFromA\<lparr>incomingCall :=
            Some \<lparr> callerId = ''C'', timestamp = 2000, offer = Some (''offer'', ''from C'') \<rparr>\<rparr>)"
proof -
  have 1: "currentUser pendingFromA = Some ''B''" by code_simp
  have 2: "\<not> isInCall pendingFromA" by code_simp
  have 3: "dateNow envLater 0 = 2000" by (simp add: envLater_def)
  show ?thesis
    using C2_offer_replaces_pending [of pendingFromA "''B''"
        "signalFrom ''C'' OFFER ''B'' (sdpPayload (''offer'', ''from C''))" envLater] 1 2 3
    by (simp add: signalFrom_def sdpPayload_def)
qed

section \<open>Adding a participant\<close>

text \<open>What the attempt to connect does when the local stream exists: a fresh registry
  entry that receives the tracks of the stream; then either the offer is created and set
  and handed to \<^verbatim>\<open>sendSignal\<close>, or the failure is caught and logged.\<close>

lemma console_pcApply: "console (pcApply r c s) = console s"
  by (simp add: pcApply_def)

lemma console_createPeerConnection: "console (createPeerConnection r s) = console s"
  by (simp add: createPeerConnection_def)

lemma console_addTracksToPc: "console (addTracksToPc r ts s) = console s"
  unfolding addTracksToPc_def by (induction ts arbitrary: s) (simp_all add: console_pcApply)

lemma peerConnections_sendSignal: "peerConnections (sendSignal e ty r p s) = peerConnections s"
  by (simp add: sendSignal_def logConsole_def Let_def split: option.splits)

lemma peerConnections_logConsole: "peerConnections (logConsole m s) = peerConnections s"
  by (simp add: logConsole_def)

lemma map_of_appendOp:
  "map_of (map (\<lambda>(k, ops). if k = r then (k, ops @ [c]) else (k, ops)) xs) r =
     map_option (\<lambda>ops. ops @ [c]) (map_of xs r)"
  by (induction xs) auto

lemma registry_pcApply:
  "map_of (peerConnections (pcApply r c s)) r =
     map_option (\<lambda>ops. ops @ [c]) (map_of (peerConnections s) r)"
  by (simp add: pcApply_def map_of_appendOp)

lemma registry_addTracksToPc:
  "map_of (peerConnections (addTracksToPc r ts s)) r =
     map_option (\<lambda>ops. ops @ map (\<lambda>t. AddTrack (trackId t)) ts) (map_of (peerConnections s) r)"
proof (induction ts arbitrary: s)
  case Nil
  show ?case by (simp add: addTracksToPc_def option.map_ident)
next
  case (Cons t ts)
  have "addTracksToPc r (t # ts) s = addTracksToPc r ts (pcApply r (AddTrack (trackId t)) s)"
    by (simp add: addTracksToPc_def)
  then show ?case
    by (simp add: Cons.IH registry_pcApply option.map_comp comp_def)
qed

lemma registry_createPeerConnection:
  "map_of (peerConnections (createPeerConnection r s)) r = Some []"
  by (simp add: createPeerConnection_def update_conv')

lemma registry_fresh:
  "map_of (peerConnections (addTracksToPc r st (createPeerConnection r s))) r =
     Some (map (\<lambda>t. AddTrack (trackId t)) st)"
  by (simp add: registry_addTracksToPc registry_createPeerConnection)

lemma initiateCallConnection_with_stream:
  assumes "localStream s = Some st"
  shows "initiateCallConnection e r s =
           (let s1 = addTracksToPc r st (createPeerConnection r s)
            in case negotiateOffer e r s1 of
                 Some s2 \<Rightarrow> s2
               | None \<Rightarrow> logConsole ''Error initiating connection:'' s1)"
  using assms by (simp add: initiateCallConnection_def Let_def)

lemma initiateCallConnection_failed:
  assumes "localStream s = Some st" and "pcCreateOffer e r = None \<or> \<not> pcSetLocalOk e r"
  shows "console (initiateCallConnection e r s) = console s @ [''Error initiating connection:'']"
    and "outbox (initiateCallConnection e r s) = outbox s"
    and "map_of (peerConnections (initiateCallConnection e r s)) r =
           Some (map (\<lambda>t. AddTrack (trackId t)) st)"
proof -
  let ?s1 = "addTracksToPc r st (createPeerConnection r s)"
  have n: "negotiateOffer e r ?s1 = None"
    using assms(2) by (auto simp: negotiateOffer_def split: option.splits)
  have eq: "initiateCallConnection e r s = logConsole ''Error initiating connection:'' ?s1"
    using initiateCallConnection_with_stream [OF assms(1), of e r] n by (simp add: Let_def)
  show "console (initiateCallConnection e r s) = console s @ [''Error initiating connection:'']"
    by (simp add: eq logConsole_def console_addTracksToPc console_createPeerConnection)
  show "outbox (initiateCallConnection e r s) = outbox s"
    by (simp add: eq outbox_logConsole outbox_addTracksToPc outbox_createPeerConnection)
  show "map_of (peerConnections (initiateCallConnection e r s)) r =
           Some (map (\<lambda>t. AddTrack (trackId t)) st)"
    by (simp add: eq peerConnections_logConsole registry_fresh)
qed

lemma initiateCallConnection_offered:
  assumes "localStream s = Some st" and "currentUser s = Some me"
    and "pcCreateOffer e r = Some off" and "pcSetLocalOk e r"
  shows "map_of (peerConnections (initiateCallConnection e r s)) r =
           Some (map (\<lambda>t. AddTrack (trackId t)) st @ [SetLocalDescription off])"
    and "outbox (initiateCallConnection e r s) =
           outbox s @ (if signalingChannel s \<and> isSignalingConnected s
                       then [\<lparr> sigType = OFFER, senderId = me, recipientId = Some r,
                                 sigPayload = sdpPayload off \<rparr>]
                       else [])"
proof -
  let ?s1 = "addTracksToPc r st (createPeerConnection r s)"
  let ?s2 = "pcApply r (SetLocalDescription off) ?s1"
  have f1: "frame s ?s1"
    by (rule frame_trans [OF frame_createPeerConnection frame_addTracksToPc])
  have f2: "frame s ?s2"
    by (rule frame_trans [OF f1 frame_pcApply])
  have eq: "initiateCallConnection e r s = sendSignal e OFFER (Some r) (sdpPayload off) ?s2"
    using initiateCallConnection_with_stream [OF assms(1), of e r] assms(3,4)
    by (simp add: Let_def negotiateOffer_def)
  show "map_of (peerConnections (initiateCallConnection e r s)) r =
           Some (map (\<lambda>t. AddTrack (trackId t)) st @ [SetLocalDescription off])"
    by (simp add: eq peerConnections_sendSignal registry_pcApply registry_fresh)
  have "outbox ?s2 = outbox s"
    by (simp add: outbox_pcApply outbox_addTracksToPc outbox_createPeerConnection)
  then show "outbox (initiateCallConnection e r s) =
           outbox s @ (if signalingChannel s \<and> isSignalingConnected s
                       then [\<lparr> sigType = OFFER, senderId = me, recipientId = Some r,
                                 sigPayload = sdpPayload off \<rparr>]
                       else [])"
    using assms(2) by (simp add: eq outbox_sendSignal_OFFER frame_fields [OF f2])
qed

text \<open>
  C3, as stated, fails.  A is in a call with B and adds C; the creation of the offer for C
  fails and no envelope is sent, yet C is appended to the participants.
\<close>

theorem C3_counterexample:
  "pcCreateOffer envNoOffer ''C'' = None \<and>
   activeParticipants inCallWithB = [''B''] \<and>
   activeParticipants (addToCall envNoOffer ''C'' inCallWithB) = [''B'', ''C''] \<and>
   outbox (addToCall envNoOffer ''C'' inCallWithB) = outbox inCallWithB"
  by code_simp

text \<open>
  C3, amended.  \<^verbatim>\<open>addToCall\<close> in an active call appends the recipient to the participants
  after the attempt to connect to the recipient has ended, whether the offer was created
  or not.  With a local stream, the attempt leaves a fresh registry entry for the
  recipient holding the tracks of the stream.  When the creation of the offer (or setting
  it as local description) fails, \<^verbatim>\<open>Error initiating connection:\<close> is logged to the console
  and no envelope is handed to the channel.  When it succeeds, the offer is the local
  description of the entry and the \<^verbatim>\<open>OFFER\<close> envelope for the recipient is handed to the
  channel if the transport is connected.
\<close>

theorem C3_append_after_attempt:
  assumes "currentUser s = Some me" and "isInCall s" and "activeCallData s = Some ps"
  shows "activeParticipants (addToCall e r s) = ps @ [r] \<and>
         (\<forall>st. localStream s = Some st \<longrightarrow>
            (pcCreateOffer e r = None \<or> \<not> pcSetLocalOk e r \<longrightarrow>
               console (addToCall e r s) = console s @ [''Error initiating connection:''] \<and>
               outbox (addToCall e r s) = outbox s \<and>
               map_of (peerConnections (addToCall e r s)) r =
                 Some (map (\<lambda>t. AddTrack (trackId t)) st)) \<and>
            (\<forall>off. pcCreateOffer e r = Some off \<and> pcSetLocalOk e r \<longrightarrow>
               map_of (peerConnections (addToCall e r s)) r =
                 Some (map (\<lambda>t. AddTrack (trackId t)) st @ [SetLocalDescription off]) \<and>
               outbox (addToCall e r s) =
                 outbox s @ (if signalingChannel s \<and> isSignalingConnected s
                             then [\<lparr> sigType = OFFER, senderId = me, recipientId = Some r,
                                       sigPayload = sdpPayload off \<rparr>]
                             else [])))"
proof -
  have app: "activeParticipants (addToCall e r s) = ps @ [r]"
    using assms
    by (simp add: addToCall_def Let_def activeParticipants_def initiateCallConnection_call)
  have k: "console (addToCall e r s) = console (initiateCallConnection e r s)"
    "outbox (addToCall e r s) = outbox (initiateCallConnection e r s)"
    "peerConnections (addToCall e r s) = peerConnections (initiateCallConnection e r s)"
    using assms by (simp_all add: addToCall_def Let_def)
  have failed: "console (addToCall e r s) = console s @ [''Error initiating connection:''] \<and>
               outbox (addToCall e r s) = outbox s \<and>
               map_of (peerConnections (addToCall e r s)) r =
                 Some (map (\<lambda>t. AddTrack (trackId t)) st)"
    if "localStream s = Some st" "pcCreateOffer e r = None \<or> \<not> pcSetLocalOk e r" for st
    using initiateCallConnection_failed [OF that] by (simp add: k)
  have offered: "map_of (peerConnections (addToCall e r s)) r =
                 Some (map (\<lambda>t. AddTrack (trackId t)) st @ [SetLocalDescription off]) \<and>
               outbox (addToCall e r s) =
                 outbox s @ (if signalingChannel s \<and> isSignalingConnected s
                             then [\<lparr> sigType = OFFER, senderId = me, recipientId = Some r,
                                       sigPayload = sdpPayload off \<rparr>]
                             else [])"
    if "localStream s = Some st" "pcCreateOffer e r = Some off" "pcSetLocalOk e r" for st off
    using initiateCallConnection_offered [OF that(1) assms(1) that(2,3)] by (simp add: k)
  show ?thesis
    using app failed offered by blast
qed

theorem C3_append_after_attempt_witness:
  "activeParticipants (addToCall envNoOffer ''C'' inCallWithB) = [''B'', ''C''] \<and>
   console (addToCall envNoOffer ''C'' inCallWithB) = [''Error initiating connection:''] \<and>
   outbox (addToCall envNoOffer ''C'' inCallWithB) = outbox inCallWithB \<and>
   map_of (peerConnections (addToCall envNoOffer ''C'' inCallWithB)) ''C'' = Some [AddTrack 1] \<and>
   activeParticipants (addToCall envOk ''C'' inCallWithB) = [''B'', ''C''] \<and>
   map_of (peerConnections (addToCall envOk ''C'' inCallWithB)) ''C'' =
     Some [AddTrack 1, SetLocalDescription (''offer'', ''C'')] \<and>
   outbox (addToCall envOk ''C'' inCallWithB) =
     outbox inCallWithB @
       [\<lparr> sigType = OFFER, senderId = ''A'', recipientId = Some ''C'',
           sigPayload = sdpPayload (''offer'', ''C'') \<rparr>]"
proof -
  have 1: "currentUser inCallWithB = Some ''A''" by code_simp
  have 2: "isInCall inCallWithB" by code_simp
  have 3: "activeCallData inCallWithB = Some [''B'']" by code_simp
  have 4: "localStream inCallWithB = Some [micTrack\<lparr>trackEnabled := False\<rparr>]" by code_simp
  have 5: "console inCallWithB = []" by code_simp
  have 6: "signalingChannel inCallWithB \<and> isSignalingConnected inCallWithB" by code_simp
  have 7: "pcCreateOffer envNoOffer ''C'' = None" by (simp add: envNoOffer_def)
  have 8: "pcCreateOffer envOk ''C'' = Some (''offer'', ''C'') \<and> pcSetLocalOk envOk ''C''"
    by (simp add: envOk_def)
  have 9: "trackId (micTrack\<lparr>trackEnabled := False\<rparr>) = 1" by (simp add: micTrack_def)
  show ?thesis
    using C3_append_after_attempt [OF 1 2 3, of envNoOffer "''C''"]
      C3_append_after_attempt [OF 1 2 3, of envOk "''C''"] 4 5 6 7 8 9
    by simp
qed

section \<open>Missed call\<close>

text \<open>
  C4.  A \<^verbatim>\<open>HANGUP\<close> from the pending caller, received while the local user is not in a
  call: the handler returns; exactly two rows are handed to the database, first the
  notification (kind missed call, recipient the local user, sender and link the caller,
  unread, the message naming the caller) and then the chat message (sender the caller,
  recipient the local user, type \<^verbatim>\<open>missed_call\<close>, no attachment); a failed insert adds
  one line to the console and nothing else; the pending offer is cleared and the phase is
  \<open>Idle\<close>.
\<close>

theorem C4_missed_call:
  assumes "currentUser s = Some me" and "senderId sg \<noteq> me"
    and "recipientId sg = None \<or> recipientId sg = Some me" and "sigType sg = HANGUP"
    and "incomingCall s = Some ic" and "callerId ic = senderId sg" and "\<not> isInCall s"
  shows "\<exists>s'. onSignal e sg s = Inr s' \<and>
           dbInserts s' = dbInserts s @
              [InsertNotification
                 \<lparr> n_id = RowId ''n-'' (dateNow e 0) (mathRandom e 0),
                   n_recipient_id = me, n_sender_id = senderId sg, n_type = MISSED_CALL,
                   n_title = ''Missed Call'',
                   n_message = ''You missed a call from '' @
                     (case map_of (users s) (senderId sg) of
                        Some n \<Rightarrow> n
                      | None \<Rightarrow> ''Unknown User''),
                   n_timestamp = dateNow e 1, n_read = False, n_link_to = senderId sg \<rparr>,
               InsertMessage
                 \<lparr> m_id = RowId ''m-'' (dateNow e 2) (mathRandom e 1),
                   m_sender_id = senderId sg, m_recipient_id = me, m_text = ''Missed Call'',
                   m_timestamp = dateNow e 3, m_type = ''missed_call'', m_attachments = [] \<rparr>] \<and>
           console s' = console s @
              (if notifInsertError e then [''Error creating missed call notification:''] else []) @
              (if msgInsertError e then [''Error creating missed call message:''] else []) \<and>
           incomingCall s' = None \<and> phase_of s' = Idle"
  using assms
  by (auto simp: onSignal_def Let_def missedCall_def missedCallNotification_def
      missedCallMessage_def handleRemoteHangup_def cleanupCall_def
      logConsole_def phase_of_def split: option.splits)

theorem C4_missed_call_witness:
  "\<exists>s'. onSignal envNotifFails (signalFrom ''A'' HANGUP ''B'' emptyPayload) pendingFromA = Inr s' \<and>
        dbInserts s' =
          [InsertNotification
             \<lparr> n_id = RowId ''n-'' 1000 0, n_recipient_id = ''B'', n_sender_id = ''A'',
               n_type = MISSED_CALL, n_title = ''Missed Call'',
               n_message = ''You missed a call from Ann'',
               n_timestamp = 1001, n_read = False, n_link_to = ''A'' \<rparr>,
           InsertMessage
             \<lparr> m_id = RowId ''m-'' 1002 1, m_sender_id = ''A'', m_recipient_id = ''B'',
               m_text = ''Missed Call'', m_timestamp = 1003, m_type = ''missed_call'',
               m_attachments = [] \<rparr>] \<and>
        console s' = [''Error creating missed call notification:''] \<and>
        incomingCall s' = None \<and> phase_of s' = Idle"
proof -
  have 1: "currentUser pendingFromA = Some ''B''" by code_simp
  have 2: "incomingCall pendingFromA =
             Some \<lparr> callerId = ''A'', timestamp = 1000, offer = Some (''offer'', ''from A'') \<rparr>"
    by code_simp
  have 3: "\<not> isInCall pendingFromA" by code_simp
  have 4: "dbInserts pendingFromA = []" by code_simp
  have 5: "console pendingFromA = []" by code_simp
  have 6: "map_of (users pendingFromA) ''A'' = Some ''Ann''" by code_simp
  show ?thesis
    using C4_missed_call [of pendingFromA "''B''" "signalFrom ''A'' HANGUP ''B'' emptyPayload"
        "\<lparr> callerId = ''A'', timestamp = 1000, offer = Some (''offer'', ''from A'') \<rparr>"
        envNotifFails] 1 2 3 4 5 6
    by (simp add: signalFrom_def envNotifFails_def envOk_def)
qed

section \<open>One video track\<close>

text \<open>\<^verbatim>\<open>stopScreenSharing\<close> with a registry that is not empty removes every video track that
  passes the screen test.\<close>

lemma stopScreenSharing_removes:
  assumes "localStream s = Some ts" and "peerConnections s \<noteq> []"
  shows "localStream (stopScreenSharing e s) =
           Some (filter (\<lambda>t. \<not> (trackKind t = VideoKind \<and> isScreenTrack t)) ts)"
  using assms by (simp add: stopScreenSharing_def Let_def helper_fields)

text \<open>Where the exclusion works.  Turning the screen share on while the camera flag is set
  stops and removes every video track before the screen track is added; turning the camera
  on while the screen is shared does the same when the registry is not empty and every
  video track of the stream passes the screen test.\<close>

lemma getVideoTracks_addTrack:
  "trackKind v = VideoKind \<Longrightarrow> getVideoTracks ts = [] \<Longrightarrow>
     length (getVideoTracks (addTrack v ts)) \<le> 1"
  by (simp add: addTrack_def getVideoTracks_def)

lemma toggleScreenShare_on_single_video:
  assumes "localStream s = Some tracks" and "peerConnections s \<noteq> []"
    and "\<not> isScreenSharing s" and "isCameraOn s"
    and "getDisplayMedia e = Some ms" and "getVideoTracks ms = v0 # vs"
  shows "\<exists>ts'. localStream (toggleScreenShare e s) = Some ts' \<and>
               length (getVideoTracks ts') \<le> 1 \<and>
               stoppedTracks (toggleScreenShare e s) =
                 stoppedTracks s @ map trackId (getVideoTracks tracks)"
proof -
  define v where "v = (case contentHint v0 of None \<Rightarrow> v0
                       | Some h \<Rightarrow> v0\<lparr>contentHint := Some ''detail''\<rparr>)"
  have "trackKind v0 = VideoKind" using assms(6) by (rule getVideoTracks_kind)
  then have v: "trackKind v = VideoKind"
    by (simp add: v_def split: option.splits)
  have none: "getVideoTracks (filter (\<lambda>t. trackKind t \<noteq> VideoKind) tracks) = []"
    by (simp add: getVideoTracks_def)
  have len: "length (getVideoTracks (addTrack v (filter (\<lambda>t. trackKind t \<noteq> VideoKind) tracks))) \<le> 1"
    using v none by (rule getVideoTracks_addTrack)
  show ?thesis
    using assms len
    by (simp add: toggleScreenShare_def Let_def helper_fields case_prod_unfold bool.case_eq_if
        v_def [symmetric])
qed

lemma toggleCamera_on_single_video:
  assumes "localStream s = Some tracks" and "peerConnections s \<noteq> []"
    and "isScreenSharing s" and "\<not> isCameraOn s"
    and "\<forall>t \<in> set (getVideoTracks tracks). isScreenTrack t"
    and "getUserMedia e = Some ms" and "getVideoTracks ms = v # vs"
  shows "\<exists>ts'. localStream (toggleCamera e s) = Some ts' \<and>
               length (getVideoTracks ts') \<le> 1 \<and>
               stoppedTracks (toggleCamera e s) =
                 stoppedTracks s @ map trackId (getVideoTracks tracks)"
proof -
  let ?s1 = "s\<lparr>captureRequests := captureRequests s @ [GetUserMedia True False]\<rparr>"
  let ?kept = "filter (\<lambda>t. \<not> (trackKind t = VideoKind \<and> isScreenTrack t)) tracks"
  have v: "trackKind v = VideoKind" using assms(7) by (rule getVideoTracks_kind)
  have k: "localStream (stopScreenSharing e ?s1) = Some ?kept"
    using assms(1,2) by (simp add: stopScreenSharing_removes)
  have st: "stoppedTracks (stopScreenSharing e ?s1) =
              stoppedTracks s @ map trackId (getVideoTracks tracks)"
    using assms(1,2,5)
    by (simp add: stopScreenSharing_def Let_def helper_fields
        frame_fields [OF frame_fold [of "detachVideo e", OF frame_detachVideo]])
  have none: "getVideoTracks ?kept = []"
    using assms(5) by (auto simp: getVideoTracks_def filter_empty_conv)
  have len: "length (getVideoTracks (addTrack v ?kept)) \<le> 1"
    using v none by (rule getVideoTracks_addTrack)
  have len0: "length (getVideoTracks ?kept) \<le> 1"
    using none by simp
  show ?thesis
    using assms(1-4,6,7) k st len len0
    by (simp add: toggleCamera_def Let_def helper_fields case_prod_unfold bool.case_eq_if)
qed

text \<open>A second way to two video tracks, with a screen track that passes the screen test:
  the registry is empty while the screen is shared, so \<^verbatim>\<open>stopScreenSharing\<close> returns at its
  guard and \<^verbatim>\<open>toggleCamera\<close> adds the camera track next to the screen track.\<close>

lemma stopScreenSharing_skipped_without_peers:
  "peerConnections acceptFailedThenShared = [] \<and>
   isScreenSharing acceptFailedThenShared \<and>
   localStream acceptFailedThenShared =
     Some [micTrack\<lparr>trackEnabled := False\<rparr>, screenTrack0\<lparr>contentHint := Some ''detail''\<rparr>] \<and>
   localStream (toggleCamera envCam acceptFailedThenShared) =
     Some [micTrack\<lparr>trackEnabled := False\<rparr>, screenTrack0\<lparr>contentHint := Some ''detail''\<rparr>,
           camTrack] \<and>
   isScreenSharing (toggleCamera envCam acceptFailedThenShared) \<and>
   isCameraOn (toggleCamera envCam acceptFailedThenShared)"
  by code_simp

text \<open>
  C5 fails on the code.  A is in a call with B and shares a window; the track of the
  capture has a label without \<^verbatim>\<open>screen\<close> and reports no display surface.  A turns the
  camera on: \<^verbatim>\<open>stopScreenSharing\<close> runs, finds no track that passes its screen test, stops
  and removes nothing, and the camera track is added: the local stream holds two video
  tracks, the shared window and the camera.
\<close>

theorem C5_camera_beside_screen_track:
  "isScreenSharing (run inCallWithB [(envOk, ToggleScreenShare)]) \<and>
   localStream (run inCallWithB [(envOk, ToggleScreenShare)]) =
     Some [micTrack\<lparr>trackEnabled := False\<rparr>, windowTrack\<lparr>contentHint := Some ''detail''\<rparr>] \<and>
   localStream (run inCallWithB [(envOk, ToggleScreenShare), (envCam, ToggleCamera)]) =
     Some [micTrack\<lparr>trackEnabled := False\<rparr>, windowTrack\<lparr>contentHint := Some ''detail''\<rparr>,
           camTrack] \<and>
   stoppedTracks (run inCallWithB [(envOk, ToggleScreenShare), (envCam, ToggleCamera)]) = [] \<and>
   length (getVideoTracks
             [micTrack\<lparr>trackEnabled := False\<rparr>, windowTrack\<lparr>contentHint := Some ''detail''\<rparr>,
              camTrack]) = 2"
  by code_simp

section \<open>Starting a call\<close>

text \<open>
  C6, as stated, fails.  A is idle with the transport connected and calls B; the
  microphone is captured, the creation of the offer for B is rejected: the call is active
  with B as participant, and no \<^verbatim>\<open>OFFER\<close> envelope is handed to the channel.
\<close>

theorem C6_counterexample:
  "phase_of idleConnectedA = Idle \<and>
   signalingChannel idleConnectedA \<and> isSignalingConnected idleConnectedA \<and>
   getUserMedia envNoOffer = Some [micTrack] \<and>
   pcCreateOffer envNoOffer ''B'' = None \<and>
   phase_of (startGroupCall envNoOffer [''B''] idleConnectedA) = Active \<and>
   activeParticipants (startGroupCall envNoOffer [''B''] idleConnectedA) = [''B''] \<and>
   localStream (startGroupCall envNoOffer [''B''] idleConnectedA) =
     Some [micTrack\<lparr>trackEnabled := False\<rparr>] \<and>
   outbox (startGroupCall envNoOffer [''B''] idleConnectedA) = outbox idleConnectedA \<and>
   filter (\<lambda>g. sigType g = OFFER) (outbox (startGroupCall envNoOffer [''B''] idleConnectedA)) = [] \<and>
   console (startGroupCall envNoOffer [''B''] idleConnectedA) = [''Failed to call B'']"
proof -
  have 1: "phase_of idleConnectedA = Idle" by code_simp
  have 2: "signalingChannel idleConnectedA \<and> isSignalingConnected idleConnectedA" by code_simp
  have 3: "getUserMedia envNoOffer = Some [micTrack]" by (simp add: envNoOffer_def envOk_def)
  have 4: "pcCreateOffer envNoOffer ''B'' = None" by (simp add: envNoOffer_def)
  have 5: "phase_of (startGroupCall envNoOffer [''B''] idleConnectedA) = Active" by code_simp
  have 6: "activeParticipants (startGroupCall envNoOffer [''B''] idleConnectedA) = [''B'']"
    by code_simp
  have 7: "localStream (startGroupCall envNoOffer [''B''] idleConnectedA) =
             Some [micTrack\<lparr>trackEnabled := False\<rparr>]" by code_simp
  have 8: "outbox (startGroupCall envNoOffer [''B''] idleConnectedA) = outbox idleConnectedA"
    by code_simp
  have 9: "filter (\<lambda>g. sigType g = OFFER)
             (outbox (startGroupCall envNoOffer [''B''] idleConnectedA)) = []" by code_simp
  have 10: "console (startGroupCall envNoOffer [''B''] idleConnectedA) = [''Failed to call B'']"
    by code_simp
  show ?thesis
    using 1 2 3 4 5 6 7 8 9 10 by simp
qed

text \<open>
  C6, amended.  \<^verbatim>\<open>startGroupCall\<close> by a logged-in user with a recipient list that is not
  empty, when a local stream exists or the capture of the microphone succeeds: the call is
  active and the participants are the requested recipients, whatever the collaborators
  answer afterwards (offers that cannot be created, sends that fail, a transport that is
  not connected).  The envelopes handed to the channel by the call are exactly the
  \<^verbatim>\<open>OFFER\<close> envelopes of the recipients whose local offer was created and set, and only
  while the transport is connected; no order among them is stated.
\<close>

theorem C6_optimistic_active:
  assumes "currentUser s = Some me" and "rs \<noteq> []"
    and "localStream s \<noteq> None \<or> getUserMedia e \<noteq> None"
  shows "isInCall (startGroupCall e rs s) \<and>
         activeCallData (startGroupCall e rs s) = Some rs \<and>
         phase_of (startGroupCall e rs s) = Active \<and>
         (\<forall>sg. sg \<in> set (outbox (startGroupCall e rs s)) \<longleftrightarrow>
                 sg \<in> set (outbox s) \<or>
                 signalingChannel s \<and> isSignalingConnected s \<and>
                 (\<exists>r off. r \<in> set rs \<and> pcCreateOffer e r = Some off \<and> pcSetLocalOk e r \<and>
                    sg = \<lparr> sigType = OFFER, senderId = me, recipientId = Some r,
                            sigPayload = sdpPayload off \<rparr>))"
proof -
  let ?s' = "startGroupCall e rs s"
  have core: "isInCall ?s' \<and> activeCallData ?s' = Some rs"
    using assms
    by (auto simp: startGroupCall_def Let_def helper_fields split: option.splits)
  have ob: "outbox ?s' = outbox s @ concat (map (offerEnvelopes e s) rs)"
  proof (cases "localStream s")
    case (Some st)
    let ?b = "s\<lparr>isInCall := True, activeCallData := Some rs\<rparr>"
    have "offerEnvelopes e ?b = offerEnvelopes e s"
      by (rule offerEnvelopes_cong) simp_all
    then show ?thesis
      using assms Some by (simp add: startGroupCall_def outbox_fold_callRecipient)
  next
    case None
    then obtain ms where ms: "getUserMedia e = Some ms"
      using assms(3) by auto
    let ?b = "s\<lparr>captureRequests := captureRequests s @ [GetUserMedia False True],
                 isMicOn := False, isCameraOn := False,
                 localStream := Some (setAudioEnabled False ms),
                 isInCall := True, activeCallData := Some rs\<rparr>"
    have "offerEnvelopes e ?b = offerEnvelopes e s"
      by (rule offerEnvelopes_cong) simp_all
    then show ?thesis
      using assms None ms by (simp add: startGroupCall_def Let_def outbox_fold_callRecipient)
  qed
  note mem = offerEnvelopes_mem [OF assms(1)]
  have "sg \<in> set (outbox ?s') \<longleftrightarrow>
          sg \<in> set (outbox s) \<or>
          signalingChannel s \<and> isSignalingConnected s \<and>
          (\<exists>r off. r \<in> set rs \<and> pcCreateOffer e r = Some off \<and> pcSetLocalOk e r \<and>
             sg = \<lparr> sigType = OFFER, senderId = me, recipientId = Some r,
                     sigPayload = sdpPayload off \<rparr>)" for sg
    by (auto simp: ob mem)
  then show ?thesis
    using core by (simp add: phase_of_def)
qed

theorem C6_optimistic_active_witness:
  "isInCall (startGroupCall envNoOfferB [''B'', ''C''] idleConnectedA) \<and>
   activeCallData (startGroupCall envNoOfferB [''B'', ''C''] idleConnectedA) = Some [''B'', ''C''] \<and>
   \<lparr> sigType = OFFER, senderId = ''A'', recipientId = Some ''C'',
      sigPayload = sdpPayload (''offer'', ''C'') \<rparr>
     \<in> set (outbox (startGroupCall envNoOfferB [''B'', ''C''] idleConnectedA)) \<and>
   \<lparr> sigType = OFFER, senderId = ''A'', recipientId = Some ''B'',
      sigPayload = sdpPayload (''offer'', ''B'') \<rparr>
     \<notin> set (outbox (startGroupCall envNoOfferB [''B'', ''C''] idleConnectedA)) \<and>
   isInCall (startGroupCall envOk [''B''] (initialState (Some ''A'') demoUsers)) \<and>
   set (outbox (startGroupCall envOk [''B''] (initialState (Some ''A'') demoUsers))) = {}"
proof -
  let ?i = "initialState (Some ''A'') demoUsers"
  have 1: "currentUser idleConnectedA = Some ''A''" by code_simp
  have 2: "localStream idleConnectedA \<noteq> None \<or> getUserMedia envNoOfferB \<noteq> None"
    by (simp add: envNoOfferB_def envOk_def)
  have 3: "signalingChannel idleConnectedA \<and> isSignalingConnected idleConnectedA" by code_simp
  have 4: "outbox idleConnectedA =
             [\<lparr> sigType = USER_ONLINE, senderId = ''A'', recipientId = None,
                 sigPayload = emptyPayload \<rparr>]" by code_simp
  have 5: "pcCreateOffer envNoOfferB ''C'' = Some (''offer'', ''C'') \<and>
           pcCreateOffer envNoOfferB ''B'' = None \<and> pcSetLocalOk envNoOfferB ''C''"
    by (simp add: envNoOfferB_def envOk_def)
  have 6: "currentUser ?i = Some ''A'' \<and> outbox ?i = [] \<and> \<not> isSignalingConnected ?i"
    by (simp add: initialState_def)
  have 7: "localStream ?i \<noteq> None \<or> getUserMedia envOk \<noteq> None"
    by (simp add: envOk_def)
  have a: "isInCall (startGroupCall envNoOfferB [''B'', ''C''] idleConnectedA) \<and>
           activeCallData (startGroupCall envNoOfferB [''B'', ''C''] idleConnectedA) =
             Some [''B'', ''C'']"
    using C6_optimistic_active [OF 1 _ 2, of "[''B'', ''C'']"] by simp
  have b: "\<lparr> sigType = OFFER, senderId = ''A'', recipientId = Some ''C'',
              sigPayload = sdpPayload (''offer'', ''C'') \<rparr>
             \<in> set (outbox (startGroupCall envNoOfferB [''B'', ''C''] idleConnectedA))"
    using C6_optimistic_active [OF 1 _ 2, of "[''B'', ''C'']"] 3 5 by auto
  have c: "\<lparr> sigType = OFFER, senderId = ''A'', recipientId = Some ''B'',
              sigPayload = sdpPayload (''offer'', ''B'') \<rparr>
             \<notin> set (outbox (startGroupCall envNoOfferB [''B'', ''C''] idleConnectedA))"
    using C6_optimistic_active [OF 1 _ 2, of "[''B'', ''C'']"] 4 5
    by (auto simp: emptyPayload_def)
  have d: "isInCall (startGroupCall envOk [''B''] ?i) \<and>
           set (outbox (startGroupCall envOk [''B''] ?i)) = {}"
    using C6_optimistic_active [OF conjunct1 [OF 6] _ 7, of "[''B'']"] 6 by auto
  show ?thesis
    using a b c d by simp
qed

section \<open>Rejecting an incoming call\<close>

text \<open>
  C7.  \<^verbatim>\<open>rejectIncomingCall\<close> with an offer pending: \<^verbatim>\<open>sendSignal\<close> is called with a
  \<^verbatim>\<open>HANGUP\<close> addressed to the pending caller (the envelope is handed to the channel when
  the transport is connected), the stored offer is cleared, the phase is \<open>Idle\<close> unless a
  call is active, and nothing of the media changes: no capture request, the same local
  stream, the same registry.
\<close>

theorem C7_reject:
  assumes "incomingCall s = Some ic" and "currentUser s = Some me"
  shows "rejectIncomingCall e s =
           (sendSignal e HANGUP (Some (callerId ic)) emptyPayload s)\<lparr>incomingCall := None\<rparr> \<and>
         (signalingChannel s \<and> isSignalingConnected s \<longrightarrow>
            outbox (rejectIncomingCall e s) =
              outbox s @ [\<lparr> sigType = HANGUP, senderId = me, recipientId = Some (callerId ic),
                             sigPayload = emptyPayload \<rparr>]) \<and>
         incomingCall (rejectIncomingCall e s) = None \<and>
         (\<not> isInCall s \<longrightarrow> phase_of (rejectIncomingCall e s) = Idle) \<and>
         localStream (rejectIncomingCall e s) = localStream s \<and>
         captureRequests (rejectIncomingCall e s) = captureRequests s \<and>
         peerConnections (rejectIncomingCall e s) = peerConnections s"
  using assms
  by (simp add: rejectIncomingCall_def phase_of_def sendSignal_fields sendSignal_def logConsole_def Let_def)

theorem C7_reject_witness:
  "outbox (rejectIncomingCall envOk pendingFromA) =
     outbox pendingFromA @
       [\<lparr> sigType = HANGUP, senderId = ''B'', recipientId = Some ''A'',
           sigPayload = emptyPayload \<rparr>] \<and>
   phase_of (rejectIncomingCall envOk pendingFromA) = Idle \<and>
   localStream (rejectIncomingCall envOk pendingFromA) = None \<and>
   captureRequests (rejectIncomingCall envOk pendingFromA) = [] \<and>
   peerConnections (rejectIncomingCall envOk pendingFromA) = []"
proof -
  have 1: "incomingCall pendingFromA =
             Some \<lparr> callerId = ''A'', timestamp = 1000, offer = Some (''offer'', ''from A'') \<rparr>"
    by code_simp
  have 2: "currentUser pendingFromA = Some ''B''" by code_simp
  have 3: "signalingChannel pendingFromA \<and> isSignalingConnected pendingFromA \<and>
           \<not> isInCall pendingFromA" by code_simp
  have 4: "localStream pendingFromA = None \<and> captureRequests pendingFromA = [] \<and>
           peerConnections pendingFromA = []" by code_simp
  show ?thesis
    using C7_reject [OF 1 2, of envOk, THEN conjunct2] 3 4 by simp
qed

section \<open>Signals from a peer without a connection\<close>

text \<open>
  C8.  An \<^verbatim>\<open>ANSWER\<close> or a \<^verbatim>\<open>CANDIDATE\<close> whose sender has no entry in the registry: the
  handler returns (no rejection) and the state is the one it started from, the
  participants, the console and the alerts with it.
\<close>

theorem C8_no_registry_entry:
  assumes "map_of (peerConnections s) (senderId sg) = None"
    and "sigType sg = ANSWER \<or> sigType sg = CANDIDATE"
  shows "onSignal e sg s = Inr s"
  using assms by (auto simp: onSignal_def Let_def split: option.splits)

theorem C8_no_registry_entry_witness:
  "onSignal envOk (signalFrom ''C'' ANSWER ''A'' (sdpPayload (''answer'', ''C''))) inCallWithB =
     Inr inCallWithB \<and>
   onSignal envOk (signalFrom ''C'' CANDIDATE ''A'' \<lparr> sdpOf = None, candidateOf = Some ''c1'' \<rparr>)
     inCallWithB = Inr inCallWithB"
proof -
  have 1: "map_of (peerConnections inCallWithB) ''C'' = None" by code_simp
  show ?thesis
    using C8_no_registry_entry [of inCallWithB
        "signalFrom ''C'' ANSWER ''A'' (sdpPayload (''answer'', ''C''))" envOk]
      C8_no_registry_entry [of inCallWithB
        "signalFrom ''C'' CANDIDATE ''A'' \<lparr> sdpOf = None, candidateOf = Some ''c1'' \<rparr>" envOk] 1
    by (simp add: signalFrom_def)
qed

section \<open>Toggling the microphone\<close>

text \<open>
  C9.  In a state reached from the initial state, with a local stream that holds an audio
  track: \<^verbatim>\<open>toggleMic\<close> negates the \<open>enabled\<close> flag of every audio track and the
  microphone flag.  When that turns the microphone on, the renegotiation runs over every
  entry of the registry, and the envelopes handed to the channel are, entry by entry, the
  \<^verbatim>\<open>OFFER\<close> of each peer whose offer was created: a peer whose renegotiation fails takes
  nothing from the others.  When it turns the microphone off, nothing is renegotiated and
  nothing is sent.
\<close>

theorem C9_toggleMic:
  assumes "s = run (initialState u us) evs"
    and "localStream s = Some ts" and "getAudioTracks ts \<noteq> []"
  shows "localStream (toggleMic e s) = Some (flipAudio ts) \<and>
         isMicOn (toggleMic e s) = (\<not> isMicOn s) \<and>
         toggleMic e s =
           (if isMicOn s then s\<lparr>localStream := Some (flipAudio ts), isMicOn := False\<rparr>
            else fold (renegotiatePeer e) (map fst (peerConnections s))
                   (s\<lparr>localStream := Some (flipAudio ts), isMicOn := True\<rparr>)) \<and>
         outbox (toggleMic e s) =
           outbox s @ (if isMicOn s then []
                       else concat (map (offerEnvelopes e s) (map fst (peerConnections s)))) \<and>
         (\<not> isMicOn s \<and> signalingChannel s \<and> isSignalingConnected s \<longrightarrow>
            (\<forall>r \<in> set (map fst (peerConnections s)). \<forall>me off.
               currentUser s = Some me \<and> pcCreateOffer e r = Some off \<and> pcSetLocalOk e r \<longrightarrow>
               \<lparr> sigType = OFFER, senderId = me, recipientId = Some r,
                  sigPayload = sdpPayload off \<rparr> \<in> set (outbox (toggleMic e s))))"
proof -
  have "micInv s"
    unfolding assms(1) by (rule micInv_run [OF micInv_initialState])
  then have "\<forall>t \<in> set ts. trackKind t = AudioKind \<longrightarrow> trackEnabled t = isMicOn s"
    using assms(2) by (simp add: micInv_def)
  then have flip: "setAudioEnabled (\<not> isMicOn s) ts = flipAudio ts"
    by (rule setAudioEnabled_flip)
  have eq: "toggleMic e s =
           (if isMicOn s then s\<lparr>localStream := Some (flipAudio ts), isMicOn := False\<rparr>
            else fold (renegotiatePeer e) (map fst (peerConnections s))
                   (s\<lparr>localStream := Some (flipAudio ts), isMicOn := True\<rparr>))"
    using assms(2,3) flip by (cases "isMicOn s") (simp_all add: toggleMic_def Let_def renegotiate_def)
  have oe: "offerEnvelopes e (s\<lparr>localStream := Some (flipAudio ts), isMicOn := True\<rparr>) =
            offerEnvelopes e s"
    by (rule offerEnvelopes_cong) simp_all
  have ob: "outbox (toggleMic e s) =
           outbox s @ (if isMicOn s then []
                       else concat (map (offerEnvelopes e s) (map fst (peerConnections s))))"
    unfolding eq using oe by (simp add: outbox_fold_renegotiatePeer)
  have sent: "\<lparr> sigType = OFFER, senderId = me, recipientId = Some r, sigPayload = sdpPayload off \<rparr>
                \<in> set (outbox (toggleMic e s))"
    if "\<not> isMicOn s" "signalingChannel s" "isSignalingConnected s"
      "r \<in> set (map fst (peerConnections s))" "currentUser s = Some me"
      "pcCreateOffer e r = Some off" "pcSetLocalOk e r" for r me off
  proof -
    have "offerEnvelopes e s r =
      [\<lparr> sigType = OFFER, senderId = me, recipientId = Some r, sigPayload = sdpPayload off \<rparr>]"
      using that by (simp add: offerEnvelopes_sent)
    then show ?thesis
      using that(1,4) by (force simp: ob)
  qed
  have fields: "localStream (toggleMic e s) = Some (flipAudio ts) \<and>
                isMicOn (toggleMic e s) = (\<not> isMicOn s)"
    unfolding eq
    by (simp add: frame_fields [OF frame_fold [of "renegotiatePeer e", OF frame_renegotiatePeer]])
  show ?thesis
    using fields eq ob sent by blast
qed

theorem C9_toggleMic_witness:
  "localStream (toggleMic envNoOfferB inCallWithBC) = Some [micTrack] \<and>
   isMicOn (toggleMic envNoOfferB inCallWithBC) \<and>
   outbox (toggleMic envNoOfferB inCallWithBC) =
     outbox inCallWithBC @
       [\<lparr> sigType = OFFER, senderId = ''A'', recipientId = Some ''C'',
           sigPayload = sdpPayload (''offer'', ''C'') \<rparr>]"
proof -
  have 1: "localStream inCallWithBC = Some [micTrack\<lparr>trackEnabled := False\<rparr>]" by code_simp
  have 2: "getAudioTracks [micTrack\<lparr>trackEnabled := False\<rparr>] \<noteq> []" by code_simp
  have 3: "\<not> isMicOn inCallWithBC" by code_simp
  have 4: "map fst (peerConnections inCallWithBC) = [''B'', ''C'']" by code_simp
  have 5: "offerEnvelopes envNoOfferB inCallWithBC ''B'' = []" by code_simp
  have 6: "offerEnvelopes envNoOfferB inCallWithBC ''C'' =
             [\<lparr> sigType = OFFER, senderId = ''A'', recipientId = Some ''C'',
                 sigPayload = sdpPayload (''offer'', ''C'') \<rparr>]" by code_simp
  have 7: "flipAudio [micTrack\<lparr>trackEnabled := False\<rparr>] = [micTrack]" by code_simp
  show ?thesis
    using C9_toggleMic [OF inCallWithBC_def 1 2, of envNoOfferB, THEN conjunct1]
      C9_toggleMic [OF inCallWithBC_def 1 2, of envNoOfferB, THEN conjunct2, THEN conjunct1]
      C9_toggleMic [OF inCallWithBC_def 1 2, of envNoOfferB, THEN conjunct2, THEN conjunct2,
        THEN conjunct2, THEN conjunct1] 3 4 5 6 7
    by simp
qed

section \<open>Toggling the screen share without a connection\<close>

text \<open>
  C10.  With an empty registry or without a local stream \<^verbatim>\<open>toggleScreenShare\<close> (and
  \<^verbatim>\<open>stopScreenSharing\<close>) returns the state it was given: no capture request, no envelope,
  no change at all.  So a run of \<^verbatim>\<open>toggleScreenShare\<close> that changes anything started with
  a connection in the registry and a local stream.
\<close>

theorem C10_toggleScreenShare_noop:
  assumes "peerConnections s = [] \<or> localStream s = None"
  shows "toggleScreenShare e s = s \<and> stopScreenSharing e s = s \<and>
         captureRequests (toggleScreenShare e s) = captureRequests s \<and>
         outbox (toggleScreenShare e s) = outbox s"
  using assms by (auto simp: toggleScreenShare_def stopScreenSharing_def split: option.splits)

theorem C10_toggleScreenShare_noop_witness:
  "toggleScreenShare envOk (initialState (Some ''A'') demoUsers) =
     initialState (Some ''A'') demoUsers \<and>
   captureRequests (toggleScreenShare envOk (initialState (Some ''A'') demoUsers)) = []"
proof -
  have 1: "peerConnections (initialState (Some ''A'') demoUsers) = [] \<or>
           localStream (initialState (Some ''A'') demoUsers) = None"
    by (simp add: initialState_def)
  have 2: "captureRequests (initialState (Some ''A'') demoUsers) = []"
    by (simp add: initialState_def)
  show ?thesis
    using C10_toggleScreenShare_noop [OF 1, of envOk] 2 by simp
qed

end
